theory Spec2Isabelle
  imports Complex_Main "HOL-Library.Word"
begin

text \<open>
  A shallow embedding of the core of the tracker: the slug functions of \<open>id.js\<close>, the
  record store of \<open>storage.js\<close>, the entity repository of \<open>entity.js\<close>, the relation
  engine of \<open>relation.js\<close>, and the classifier and the similarity measure of \<open>ai.js\<close>.
  Every function keeps the name it has in the source. What a function reads from outside
  is a parameter: the entities file (the list of its records), the clock readings, the
  random bytes, the generated identifier, and the lookup of governments. A call that
  raises returns \<open>Inl\<close> of the error; a call that writes returns the file afterwards.
  Quotients of counts, which the source computes in floating point, are rationals.
\<close>

section \<open>Strings\<close>

text \<open>
  A JavaScript string is read as ASCII text: a \<open>char list\<close>. The character classes of
  the regular expressions in the source are written out for that range:
  \<open>\s\<close> is space, tab, line feed, vertical tab, form feed and carriage return,
  \<open>\w\<close> is a letter, a digit or the underscore.
\<close>

definition upper_chars :: string where
  "upper_chars = ''ABCDEFGHIJKLMNOPQRSTUVWXYZ''"

definition lower_chars :: string where
  "lower_chars = ''abcdefghijklmnopqrstuvwxyz''"

definition digit_chars :: string where
  "digit_chars = ''0123456789''"

definition is_space :: "char \<Rightarrow> bool" where
  "is_space c = (c \<in> set [CHR '' '', CHR 0x09, CHR 0x0A, CHR 0x0B, CHR 0x0C, CHR 0x0D])"

definition is_word_char :: "char \<Rightarrow> bool" where
  "is_word_char c = (c \<in> set (lower_chars @ upper_chars @ digit_chars @ ''_''))"

definition is_lower_alnum :: "char \<Rightarrow> bool" where
  "is_lower_alnum c = (c \<in> set (lower_chars @ digit_chars))"

definition lower_char :: "char \<Rightarrow> char" where
  "lower_char c = (case map_of (zip upper_chars lower_chars) c of Some l \<Rightarrow> l | None \<Rightarrow> c)"

text \<open>\<open>String.prototype.toLowerCase\<close>.\<close>

definition toLowerCase :: "string \<Rightarrow> string" where
  "toLowerCase s = map lower_char s"

text \<open>\<open>String.prototype.trim\<close>: whitespace is dropped at both ends.\<close>

definition trim :: "string \<Rightarrow> string" where
  "trim s = rev (dropWhile is_space (rev (dropWhile is_space s)))"

text \<open>
  \<open>s.replace(/[class]+/g, r)\<close>: every maximal run of characters of the class \<open>p\<close>
  becomes one copy of \<open>r\<close>.
\<close>

function replace_runs :: "(char \<Rightarrow> bool) \<Rightarrow> string \<Rightarrow> string \<Rightarrow> string" where
  "replace_runs p r [] = []"
| "replace_runs p r (c # cs) =
     (if p c then r @ replace_runs p r (dropWhile p cs) else c # replace_runs p r cs)"
  by pat_completeness auto
termination
  by (relation "measure (\<lambda>(p, r, s). length s)")
     (auto simp: length_dropWhile_le less_Suc_eq_le)

text \<open>
  \<open>s.split(/\s+/)\<close>: the pieces between the maximal whitespace runs. A run at the start
  or at the end leaves an empty piece there, and the empty string splits into one empty
  piece, so the result is never the empty list.
\<close>

function split_ws_from :: "string \<Rightarrow> string \<Rightarrow> string list" where
  "split_ws_from acc [] = [rev acc]"
| "split_ws_from acc (c # cs) =
     (if is_space c then rev acc # split_ws_from [] (dropWhile is_space cs)
      else split_ws_from (c # acc) cs)"
  by pat_completeness auto
termination
  by (relation "measure (\<lambda>(acc, s). length s)")
     (auto simp: length_dropWhile_le less_Suc_eq_le)

definition split_ws :: "string \<Rightarrow> string list" where
  "split_ws s = split_ws_from [] s"

text \<open>\<open>s.includes(k)\<close>: \<open>k\<close> occurs in \<open>s\<close> as a contiguous substring.\<close>

fun starts_with :: "string \<Rightarrow> string \<Rightarrow> bool" where
  "starts_with s [] = True"
| "starts_with [] (k # ks) = False"
| "starts_with (c # cs) (k # ks) = (c = k \<and> starts_with cs ks)"

fun str_includes :: "string \<Rightarrow> string \<Rightarrow> bool" where
  "str_includes [] k = (k = [])"
| "str_includes (c # cs) k = (starts_with (c # cs) k \<or> str_includes cs k)"

text \<open>\<open>xs.join(sep)\<close> on an array of strings.\<close>

fun join :: "string \<Rightarrow> string list \<Rightarrow> string" where
  "join sep [] = []"
| "join sep [x] = x"
| "join sep (x # y # ys) = x @ sep @ join sep (y # ys)"

text \<open>The decimal rendering of a non-negative integer, as a template string prints it.\<close>

function show_nat :: "nat \<Rightarrow> string" where
  "show_nat n =
     (if n < 10 then [digit_chars ! n] else show_nat (n div 10) @ [digit_chars ! (n mod 10)])"
  by pat_completeness auto
termination
  by (relation "measure (\<lambda>n. n)") auto

section \<open>Slugs (id.js)\<close>

text \<open>
  \<open>.replace(/^-|-$/g, '')\<close>: one hyphen is removed at the start if there is one, and one
  at the end of what remains.
\<close>

definition strip_hyphens :: "string \<Rightarrow> string" where
  "strip_hyphens s =
     (let s1 = (case s of [] \<Rightarrow> [] | c # cs \<Rightarrow> if c = CHR ''-'' then cs else s)
      in if s1 \<noteq> [] \<and> last s1 = CHR ''-'' then butlast s1 else s1)"

text \<open>The two halves of \<open>strip_hyphens\<close>, for reasoning about each end on its own.\<close>

definition strip_lead :: "string \<Rightarrow> string" where
  "strip_lead t = (case t of [] \<Rightarrow> [] | c # cs \<Rightarrow> if c = CHR ''-'' then cs else t)"

definition strip_trail :: "string \<Rightarrow> string" where
  "strip_trail t = (if t \<noteq> [] \<and> last t = CHR ''-'' then butlast t else t)"

text \<open>The class \<open>[^a-z0-9]\<close>.\<close>

definition non_alnum :: "char \<Rightarrow> bool" where
  "non_alnum c = (\<not> is_lower_alnum c)"

definition generateSlug :: "string \<Rightarrow> string" where
  "generateSlug name =
     take 100 (strip_hyphens (replace_runs non_alnum ''-'' (trim (toLowerCase name))))"

text \<open>
  The slug in the words of the specification: lower-case, every run of non-alphanumeric
  characters replaced by one hyphen, all hyphens trimmed at both ends, cut to 100
  characters.
\<close>

definition trim_hyphens :: "string \<Rightarrow> string" where
  "trim_hyphens s =
     rev (dropWhile (\<lambda>c. c = CHR ''-'') (rev (dropWhile (\<lambda>c. c = CHR ''-'') s)))"

definition slug_ref :: "string \<Rightarrow> string" where
  "slug_ref name = take 100 (trim_hyphens (replace_runs non_alnum ''-'' (toLowerCase name)))"

text \<open>\<open>Buffer.toString('hex')\<close>: two lower-case hexadecimal digits for each byte.\<close>

definition hex_chars :: string where
  "hex_chars = ''0123456789abcdef''"

definition hex_of_bytes :: "8 word list \<Rightarrow> string" where
  "hex_of_bytes bs = concat (map (\<lambda>b. [hex_chars ! (unat b div 16), hex_chars ! (unat b mod 16)]) bs)"

text \<open>
  The loop of \<open>makeSlugUnique\<close>, from the value of \<open>counter\<close>: the first free
  \<open>base-counter\<close> with \<open>counter < 1000\<close>, or nothing when the loop runs out.
\<close>

function slug_loop :: "(string \<Rightarrow> bool) \<Rightarrow> string \<Rightarrow> nat \<Rightarrow> string option" where
  "slug_loop existsCheck baseSlug counter =
     (if counter < 1000 then
        (let slug = baseSlug @ ''-'' @ show_nat counter
         in if \<not> existsCheck slug then Some slug
            else slug_loop existsCheck baseSlug (counter + 1))
      else None)"
  by pat_completeness auto
termination
  by (relation "measure (\<lambda>(ex, b, counter). 1000 - counter)") auto

text \<open>
  \<open>makeSlugUnique\<close>. The three bytes of \<open>randomBytes(3)\<close> are the parameter
  \<open>random3\<close>.
\<close>

definition makeSlugUnique :: "string \<Rightarrow> (string \<Rightarrow> bool) \<Rightarrow> 8 word list \<Rightarrow> string" where
  "makeSlugUnique baseSlug existsCheck random3 =
     (if \<not> existsCheck baseSlug then baseSlug
      else case slug_loop existsCheck baseSlug 2 of
             Some slug \<Rightarrow> slug
           | None \<Rightarrow> baseSlug @ ''-'' @ hex_of_bytes random3)"

section \<open>Classification (ai.js)\<close>

definition TYPE_KEYWORDS :: "(string \<times> string list) list" where
  "TYPE_KEYWORDS =
     [(''goal'',
        [''improve'', ''increase'', ''reduce'', ''enhance'', ''promote'', ''ensure'',
         ''achieve'', ''establish'', ''create'', ''build'', ''develop'', ''maintain'',
         ''safe'', ''sustainable'', ''accessible'', ''affordable'', ''efficient'',
         ''vision'', ''objective'', ''target'', ''aim'', ''aspiration'']),
      (''problem'',
        [''broken'', ''damaged'', ''issue'', ''problem'', ''complaint'', ''concern'',
         ''pothole'', ''graffiti'', ''noise'', ''pollution'', ''crime'', ''dangerous'',
         ''unsafe'', ''blocked'', ''flooded'', ''cracked'', ''missing'', ''faulty'',
         ''abandoned'', ''neglected'', ''deteriorating'', ''overcrowded'']),
      (''idea'',
        [''suggest'', ''propose'', ''idea'', ''solution'', ''could'', ''should'', ''might'',
         ''consider'', ''implement'', ''install'', ''create'', ''establish'', ''introduce'',
         ''program'', ''initiative'', ''pilot'', ''project'', ''scheme'', ''plan'']),
      (''action'',
        [''task'', ''action'', ''do'', ''complete'', ''fix'', ''repair'', ''install'',
         ''remove'', ''clean'', ''paint'', ''replace'', ''update'', ''review'', ''inspect'',
         ''schedule'', ''assign'', ''deadline'', ''responsible'', ''priority''])]"

text \<open>\<open>TYPE_KEYWORDS[type]\<close>.\<close>

definition keywords_of :: "string \<Rightarrow> string list" where
  "keywords_of t = (case map_of TYPE_KEYWORDS t of Some kws \<Rightarrow> kws | None \<Rightarrow> [])"

record classification =
  ctype :: string
  confidence :: rat
  scores :: "(string \<times> nat) list"
  reasoning :: string
  suggestions :: "(string \<times> nat) list"

text \<open>The inner loop: one point for each keyword that the lower-cased text includes.\<close>

definition keyword_score :: "string \<Rightarrow> string list \<Rightarrow> nat" where
  "keyword_score lowerText keywords = length (filter (str_includes lowerText) keywords)"

text \<open>
  The second loop, over the entries of \<open>scores\<close> in insertion order; the state is
  \<open>(bestType, bestScore, totalScore)\<close>.
\<close>

fun best_loop :: "(string \<times> nat) list \<Rightarrow> string \<times> nat \<times> nat \<Rightarrow> string \<times> nat \<times> nat" where
  "best_loop [] st = st"
| "best_loop ((type, score) # rest) (bestType, bestScore, totalScore) =
     best_loop rest
       (if score > bestScore then (type, score, totalScore + score)
        else (bestType, bestScore, totalScore + score))"

text \<open>\<open>Math.round(x * 100) / 100\<close>, in the rationals: halves round up.\<close>

definition round2 :: "rat \<Rightarrow> rat" where
  "round2 x = of_int (floor (x * 100 + 1 / 2)) / 100"

text \<open>
  \<open>getSuggestions\<close>: the entries of \<open>scores\<close> by descending score; the sort is stable.
\<close>

definition getSuggestions :: "(string \<times> nat) list \<Rightarrow> (string \<times> nat) list" where
  "getSuggestions sc = sort_key (\<lambda>(type, score). - int score) sc"

definition classifyText :: "string \<Rightarrow> classification" where
  "classifyText text =
     (let lowerText = toLowerCase text;
          sc = map (\<lambda>(type, keywords). (type, keyword_score lowerText keywords)) TYPE_KEYWORDS;
          (bestType, bestScore, totalScore) = best_loop sc (''idea'', 0, 0);
          conf = (if totalScore > 0 then of_nat bestScore / of_nat totalScore else 1 / 4);
          matchedKeywords = filter (str_includes lowerText) (keywords_of bestType)
      in \<lparr> ctype = bestType,
           confidence = round2 conf,
           scores = sc,
           reasoning =
             (if length matchedKeywords > 0
              then ''Matched keywords: '' @ join '', '' (take 5 matchedKeywords)
              else ''Default classification (no strong keyword matches)''),
           suggestions = getSuggestions sc \<rparr>)"

text \<open>
  The reference definition of the classifier, in the words of the specification: the
  score of a type counts its keywords that occur in the input as substrings, letter case
  ignored; the type is the first of goal, problem, idea, action that reaches the highest
  score, idea when every score is zero; the confidence is the best score over the sum of
  the scores, a quarter when every score is zero.
\<close>

definition occurs_in :: "string \<Rightarrow> string \<Rightarrow> bool" where
  "occurs_in k text = (\<exists>u v. toLowerCase text = u @ toLowerCase k @ v)"

definition score_ref :: "string \<Rightarrow> string \<Rightarrow> nat" where
  "score_ref type text =
     card {k. k \<in> set (keywords_of type) \<and> occurs_in k text}"

definition type_order :: "string list" where
  "type_order = [''goal'', ''problem'', ''idea'', ''action'']"

definition best_score_ref :: "string \<Rightarrow> nat" where
  "best_score_ref text = Max ((\<lambda>t. score_ref t text) ` set type_order)"

definition total_score_ref :: "string \<Rightarrow> nat" where
  "total_score_ref text = sum_list (map (\<lambda>t. score_ref t text) type_order)"

definition type_ref :: "string \<Rightarrow> string" where
  "type_ref text =
     (if total_score_ref text = 0 then ''idea''
      else case List.find (\<lambda>t. score_ref t text = best_score_ref text) type_order of
             Some t \<Rightarrow> t | None \<Rightarrow> ''idea'')"

definition confidence_ref :: "string \<Rightarrow> rat" where
  "confidence_ref text =
     (if total_score_ref text = 0 then 1 / 4
      else of_nat (best_score_ref text) / of_nat (total_score_ref text))"

section \<open>Similarity (ai.js)\<close>

text \<open>
  \<open>normalizeText\<close>: lower-case, delete what is neither a word character nor whitespace,
  collapse whitespace runs to one space, trim.
\<close>

definition normalizeText :: "string \<Rightarrow> string" where
  "normalizeText text =
     trim (replace_runs is_space '' ''
       (filter (\<lambda>c. is_word_char c \<or> is_space c) (toLowerCase text)))"

text \<open>
  \<open>calculateSimilarity\<close>. A \<open>Set\<close> built from an array is the array without repetitions;
  \<open>intersection.size / union.size\<close> is a quotient of two small integers, taken here in
  the rationals. The guard on \<open>union.size\<close> is kept as the source has it.
\<close>

definition words_of :: "string \<Rightarrow> string list" where
  "words_of text = remdups (split_ws (normalizeText text))"

definition calculateSimilarity :: "string \<Rightarrow> string \<Rightarrow> rat" where
  "calculateSimilarity text1 text2 =
     (if text1 = [] \<or> text2 = [] then 0
      else
        let words1 = words_of text1;
            words2 = words_of text2;
            intersection = remdups (filter (\<lambda>x. x \<in> set words2) words1);
            union = remdups (words1 @ words2)
        in if length union = 0 then 0
           else of_nat (length intersection) / of_nat (length union))"

text \<open>
  The Jaccard coefficient of two finite sets, as the specification words it: the size of
  the intersection over the size of the union.
\<close>

definition jaccard :: "'a set \<Rightarrow> 'a set \<Rightarrow> rat" where
  "jaccard A B = of_nat (card (A \<inter> B)) / of_nat (card (A \<union> B))"

text \<open>The set that \<open>calculateSimilarity\<close> builds from one text.\<close>

definition word_set :: "string \<Rightarrow> string set" where
  "word_set text = set (split_ws (normalizeText text))"

text \<open>
  The words of a text as the specification describes them, written without the functions
  of the source: the text is lower-cased, its punctuation (every character that is
  neither a word character nor whitespace) is removed, and the words are the maximal
  runs of characters that are not whitespace.
\<close>

definition is_punct :: "char \<Rightarrow> bool" where
  "is_punct c = (\<not> is_word_char c \<and> \<not> is_space c)"

definition lower_stripped :: "string \<Rightarrow> string" where
  "lower_stripped text = filter (\<lambda>c. \<not> is_punct c) (toLowerCase text)"

fun words_from :: "string \<Rightarrow> string \<Rightarrow> string list" where
  "words_from acc [] = (if acc = [] then [] else [rev acc])"
| "words_from acc (c # cs) =
     (if is_space c then (if acc = [] then words_from [] cs else rev acc # words_from [] cs)
      else words_from (c # acc) cs)"

definition ws_words :: "string \<Rightarrow> string list" where
  "ws_words s = words_from [] s"

definition words_ref :: "string \<Rightarrow> string set" where
  "words_ref text = set (ws_words (lower_stripped text))"

text \<open>
  The tokens of a text: its words, and the one empty token when no word is left, which is
  what splitting the empty string gives.
\<close>

definition tokens_ref :: "string \<Rightarrow> string set" where
  "tokens_ref text = (if words_ref text = {} then {[]} else words_ref text)"

section \<open>Entities (entity.js, storage.js)\<close>

text \<open>
  The source raises \<open>new Error(message)\<close> everywhere. An error of the model carries the
  message of the source and the kind under which the specification files that message.
\<close>

datatype kind = ValidationError | NotFoundError | ConflictError | CycleError

datatype error = Error kind string

definition and_then :: "error + 'a \<Rightarrow> ('a \<Rightarrow> error + 'b) \<Rightarrow> error + 'b" where
  "and_then r f = (case r of Inl e \<Rightarrow> Inl e | Inr x \<Rightarrow> f x)"

text \<open>
  A property of an input object where the source tells \<open>undefined\<close> from \<open>null\<close>:
  absent, \<open>null\<close>, or a value. Where the source only tests truthiness the model has an
  \<open>option\<close>, and a string is falsy when it is empty.
\<close>

datatype 'a js_field = Absent | Null | Val 'a

record relation =
  rel_type :: string
  target :: string

datatype jv = JNull | JStr string | JNum int | JRels "relation list"

record history_entry =
  timestamp :: string
  action :: string
  field :: "string option"
  old_value :: "jv option"
  new_value :: "jv option"

record location_data =
  address :: "string option"
  lat :: "rat js_field"
  lng :: "rat js_field"

datatype prio = PNum int | PStr string

record entity =
  ent_id :: string
  ent_type :: string
  title :: string
  body :: "string option"
  priority :: int
  status :: string
  gov_id :: "string option"
  relations :: "relation list"
  metadata :: "(string \<times> string) list"
  created_at :: string
  updated_at :: string
  closed_at :: "string option"
  history :: "history_entry list"
  location :: "location_data option"
  report_count :: "int option"
  supporters :: "string list option"
  support_count :: "int option"
  similar_ideas :: "string list option"
  ai_classification :: "string option"
  assignee :: "string option"
  due_date :: "string option"

text \<open>
  The \<open>data\<close> object of \<open>create\<close> and the \<open>updates\<close> object of \<open>update\<close>. A title
  and a status, when supplied, are strings; a priority, when supplied, is a number or a
  string.
\<close>

record input =
  in_title :: "string option"
  in_body :: "string js_field"
  in_status :: "string option"
  in_priority :: "prio option"
  in_gov_id :: "string js_field"
  in_relations :: "relation list js_field"
  in_location :: "location_data js_field"
  in_metadata :: "(string \<times> string) list js_field"
  in_report_count :: "int option"
  in_supporters :: "string list js_field"
  in_support_count :: "int js_field"
  in_similar_ideas :: "string list option"
  in_ai_classification :: "string js_field"
  in_assignee :: "string js_field"
  in_due_date :: "string js_field"

definition no_input :: input where
  "no_input = \<lparr> in_title = None, in_body = Absent, in_status = None, in_priority = None,
     in_gov_id = Absent, in_relations = Absent, in_location = Absent, in_metadata = Absent,
     in_report_count = None, in_supporters = Absent, in_support_count = Absent,
     in_similar_ideas = None, in_ai_classification = Absent, in_assignee = Absent,
     in_due_date = Absent \<rparr>"

text \<open>
  The \<open>allowedUpdates\<close> object of \<open>update\<close>: \<open>None\<close> where the key is not set, and a
  second \<open>option\<close> where the value set may be \<open>null\<close>.
\<close>

record patch =
  set_title :: "string option"
  set_body :: "string option option"
  set_status :: "string option"
  set_closed_at :: "string option option"
  set_priority :: "int option"
  set_gov_id :: "string option option"
  set_relations :: "relation list option"
  set_location :: "location_data option option"
  set_assignee :: "string option option"
  set_due_date :: "string option option"
  set_support_count :: "int option option"
  set_supporters :: "string list option option"
  set_ai_classification :: "string option option"
  set_metadata :: "(string \<times> string) list option"
  set_history :: "history_entry list option"

definition no_patch :: patch where
  "no_patch = \<lparr> set_title = None, set_body = None, set_status = None, set_closed_at = None,
     set_priority = None, set_gov_id = None, set_relations = None, set_location = None,
     set_assignee = None, set_due_date = None, set_support_count = None,
     set_supporters = None, set_ai_classification = None, set_metadata = None,
     set_history = None \<rparr>"

text \<open>The value a key is set to: \<open>null\<close> and a value are both written.\<close>

definition written :: "'a js_field \<Rightarrow> 'a option option" where
  "written x = (case x of Absent \<Rightarrow> None | Null \<Rightarrow> Some None | Val v \<Rightarrow> Some (Some v))"

text \<open>
  The entities file is the list of its records in file order; a file that does not exist
  reads as the empty list. The lookup of governments, \<open>government.find\<close>, belongs to a
  module outside the core and is a parameter: it gives the \<open>id\<close> of the government found.
\<close>

type_synonym store = "entity list"

type_synonym governments = "string \<Rightarrow> string option"

definition ENTITY_TYPES :: "string list" where
  "ENTITY_TYPES = [''goal'', ''problem'', ''idea'', ''action'']"

definition ENTITY_STATUSES :: "(string \<times> string list) list" where
  "ENTITY_STATUSES =
     [(''goal'', [''active'', ''deprecated'']),
      (''problem'', [''unacknowledged'', ''acknowledged'', ''being_addressed'', ''resolved'']),
      (''idea'', [''proposed'', ''under_review'', ''accepted'', ''rejected'', ''superseded'']),
      (''action'', [''open'', ''in_progress'', ''blocked'', ''completed'', ''cancelled''])]"

text \<open>\<open>RELATION_TYPES\<close>: relation type, then \<open>from\<close> and \<open>to\<close>.\<close>

definition RELATION_TYPES :: "(string \<times> string \<times> string) list" where
  "RELATION_TYPES =
     [(''threatens'', ''problem'', ''goal''),
      (''addresses'', ''idea'', ''problem''),
      (''pursues'', ''idea'', ''goal''),
      (''complements'', ''idea'', ''idea''),
      (''conflicts'', ''idea'', ''idea''),
      (''requires'', ''idea'', ''idea''),
      (''similar'', ''idea'', ''idea''),
      (''duplicate'', ''idea'', ''idea''),
      (''supersedes'', ''idea'', ''idea''),
      (''alternative'', ''idea'', ''idea''),
      (''extends'', ''idea'', ''idea''),
      (''implements'', ''action'', ''idea''),
      (''depends_on'', ''action'', ''action''),
      (''blocks'', ''action'', ''action'')]"

definition PRIORITIES :: "int list" where
  "PRIORITIES = [0, 1, 2, 3, 4]"

subsection \<open>storage.js\<close>

definition findById :: "store \<Rightarrow> string \<Rightarrow> entity option" where
  "findById records i = List.find (\<lambda>r. ent_id r = i) records"

definition appendRecord :: "store \<Rightarrow> entity \<Rightarrow> store" where
  "appendRecord records record = records @ [record]"

definition keep :: "'a option \<Rightarrow> 'a \<Rightarrow> 'a" where
  "keep new old = (case new of None \<Rightarrow> old | Some v \<Rightarrow> v)"

text \<open>\<open>{ ...record, ...updates, updated_at: new Date().toISOString() }\<close>.\<close>

definition merge_record :: "entity \<Rightarrow> patch \<Rightarrow> string \<Rightarrow> entity" where
  "merge_record record updates stamp =
     record \<lparr>
       title := keep (set_title updates) (title record),
       body := keep (set_body updates) (body record),
       priority := keep (set_priority updates) (priority record),
       status := keep (set_status updates) (status record),
       gov_id := keep (set_gov_id updates) (gov_id record),
       relations := keep (set_relations updates) (relations record),
       metadata := keep (set_metadata updates) (metadata record),
       updated_at := stamp,
       closed_at := keep (set_closed_at updates) (closed_at record),
       history := keep (set_history updates) (history record),
       location := keep (set_location updates) (location record),
       supporters := keep (set_supporters updates) (supporters record),
       support_count := keep (set_support_count updates) (support_count record),
       ai_classification := keep (set_ai_classification updates) (ai_classification record),
       assignee := keep (set_assignee updates) (assignee record),
       due_date := keep (set_due_date updates) (due_date record) \<rparr>"

text \<open>
  \<open>updateRecord\<close>: every record with the id is merged, \<open>found\<close> is the last of them, and
  the file is rewritten only when there is one. The second clock reading is \<open>stamp\<close>.
\<close>

definition updateRecord :: "store \<Rightarrow> string \<Rightarrow> patch \<Rightarrow> string \<Rightarrow> entity option \<times> store" where
  "updateRecord records i updates stamp =
     (let updated = map (\<lambda>record. if ent_id record = i then merge_record record updates stamp
                                   else record) records;
          found = (case filter (\<lambda>record. ent_id record = i) records of
                     [] \<Rightarrow> None
                   | m # ms \<Rightarrow> Some (merge_record (last (m # ms)) updates stamp))
      in (found, if found \<noteq> None then updated else records))"

definition deleteRecord :: "store \<Rightarrow> string \<Rightarrow> bool \<times> store" where
  "deleteRecord records i =
     (let filtered = filter (\<lambda>record. ent_id record \<noteq> i) records
      in if length filtered = length records then (False, records) else (True, filtered))"

subsection \<open>Validation\<close>

definition validateTitle :: "string option \<Rightarrow> error + unit" where
  "validateTitle t =
     (case t of
        None \<Rightarrow> Inl (Error ValidationError ''Entity title is required'')
      | Some s \<Rightarrow>
          if s = [] then Inl (Error ValidationError ''Entity title is required'')
          else if length s > 500
          then Inl (Error ValidationError ''Entity title must be 500 characters or less'')
          else Inr ())"

definition validateBody :: "string js_field \<Rightarrow> error + unit" where
  "validateBody b =
     (case b of
        Val s \<Rightarrow>
          if s \<noteq> [] \<and> length s > 10000
          then Inl (Error ValidationError ''Entity body must be 10000 characters or less'')
          else Inr ()
      | _ \<Rightarrow> Inr ())"

definition validateType :: "string \<Rightarrow> error + unit" where
  "validateType type =
     (if type \<notin> set ENTITY_TYPES
      then Inl (Error ValidationError
                  (''Invalid entity type. Must be one of: '' @ join '', '' ENTITY_TYPES))
      else Inr ())"

definition validateStatus :: "string \<Rightarrow> string \<Rightarrow> error + unit" where
  "validateStatus st type =
     (case map_of ENTITY_STATUSES type of
        None \<Rightarrow> Inr ()
      | Some validStatuses \<Rightarrow>
          if st \<notin> set validStatuses
          then Inl (Error ValidationError
                      (''Invalid status for '' @ type @ ''. Must be one of: ''
                         @ join '', '' validStatuses))
          else Inr ())"

text \<open>
  \<open>validatePriority\<close>: a string that matches \<open>/^P?(\d)$/i\<close> is read as its digit; any
  other string stays a string and is not among \<open>PRIORITIES\<close>.
\<close>

definition digit_value :: "char \<Rightarrow> int" where
  "digit_value c = int (length (takeWhile (\<lambda>d. d \<noteq> c) digit_chars))"

definition validatePriority :: "prio \<Rightarrow> error + int" where
  "validatePriority p =
     (let normalized =
            (case p of
               PNum n \<Rightarrow> Some n
             | PStr s \<Rightarrow>
                 (case s of
                    [d] \<Rightarrow> if d \<in> set digit_chars then Some (digit_value d) else None
                  | [c, d] \<Rightarrow>
                      if (c = CHR ''P'' \<or> c = CHR ''p'') \<and> d \<in> set digit_chars
                      then Some (digit_value d) else None
                  | _ \<Rightarrow> None))
      in case normalized of
           Some n \<Rightarrow>
             if n \<in> set PRIORITIES then Inr n
             else Inl (Error ValidationError ''Invalid priority. Must be 0-4 or P0-P4'')
         | None \<Rightarrow> Inl (Error ValidationError ''Invalid priority. Must be 0-4 or P0-P4''))"

text \<open>
  \<open>validateLocation\<close>. A \<open>null\<close> latitude or longitude passes both comparisons and is
  copied; the result is \<open>null\<close> when no key was copied.
\<close>

definition validateLocation :: "location_data js_field \<Rightarrow> error + location_data option" where
  "validateLocation l =
     (case l of
        Val loc \<Rightarrow>
          if (case address loc of Some a \<Rightarrow> a \<noteq> [] \<and> length a > 500 | None \<Rightarrow> False)
          then Inl (Error ValidationError ''Location address must be 500 characters or less'')
          else if (case lat loc of Val x \<Rightarrow> x < - 90 \<or> x > 90 | _ \<Rightarrow> False)
          then Inl (Error ValidationError ''Latitude must be between -90 and 90'')
          else if (case lng loc of Val x \<Rightarrow> x < - 180 \<or> x > 180 | _ \<Rightarrow> False)
          then Inl (Error ValidationError ''Longitude must be between -180 and 180'')
          else
            let validated = \<lparr> address = (case address loc of
                                            Some a \<Rightarrow> if a \<noteq> [] then Some a else None
                                          | None \<Rightarrow> None),
                              lat = lat loc, lng = lng loc \<rparr>
            in if address validated \<noteq> None \<or> lat validated \<noteq> Absent \<or> lng validated \<noteq> Absent
               then Inr (Some validated) else Inr None
      | _ \<Rightarrow> Inr None)"

definition validateRelation :: "store \<Rightarrow> relation \<Rightarrow> string \<Rightarrow> error + relation" where
  "validateRelation records rel sourceType =
     (if rel_type rel = [] \<or> target rel = []
      then Inl (Error ValidationError ''Relation must have type and target'')
      else case map_of RELATION_TYPES (rel_type rel) of
        None \<Rightarrow>
          Inl (Error ValidationError
                 (''Invalid relation type: '' @ rel_type rel @ ''. Valid types: ''
                    @ join '', '' (map fst RELATION_TYPES)))
      | Some (from, to) \<Rightarrow>
          if from \<noteq> sourceType
          then Inl (Error ValidationError
                      (''Relation type '' @ [CHR 0x27] @ rel_type rel @ [CHR 0x27]
                         @ '' is not valid from '' @ [CHR 0x27] @ sourceType @ [CHR 0x27]
                         @ '' entities''))
          else (case findById records (target rel) of
            None \<Rightarrow> Inl (Error NotFoundError (''Relation target not found: '' @ target rel))
          | Some tgt \<Rightarrow>
              if to \<noteq> ent_type tgt
              then Inl (Error ValidationError
                          (''Relation type '' @ [CHR 0x27] @ rel_type rel @ [CHR 0x27]
                             @ '' expects target type '' @ [CHR 0x27] @ to @ [CHR 0x27]
                             @ '', got '' @ [CHR 0x27] @ ent_type tgt @ [CHR 0x27]))
              else Inr \<lparr> rel_type = rel_type rel, target = target rel \<rparr>))"

text \<open>The loop over supplied relations: the first failure is raised.\<close>

fun validateRelations :: "store \<Rightarrow> relation list \<Rightarrow> string \<Rightarrow> error + relation list" where
  "validateRelations records [] sourceType = Inr []"
| "validateRelations records (rel # rels) sourceType =
     and_then (validateRelation records rel sourceType) (\<lambda>v.
     and_then (validateRelations records rels sourceType) (\<lambda>vs. Inr (v # vs)))"

subsection \<open>create\<close>

text \<open>A string property that is truthy: present and not empty.\<close>

definition truthy :: "string js_field \<Rightarrow> string option" where
  "truthy x = (case x of Val s \<Rightarrow> if s \<noteq> [] then Some s else None | _ \<Rightarrow> None)"

text \<open>\<open>x?.trim() || null\<close>.\<close>

definition trim_or_null :: "string js_field \<Rightarrow> string option" where
  "trim_or_null x = (case x of Val s \<Rightarrow> if trim s \<noteq> [] then Some (trim s) else None | _ \<Rightarrow> None)"

text \<open>The government reference of \<open>create\<close> and \<open>update\<close>: a truthy reference must resolve.\<close>

definition resolve_gov :: "governments \<Rightarrow> string js_field \<Rightarrow> error + string option" where
  "resolve_gov gov g =
     (case truthy g of
        None \<Rightarrow> Inr None
      | Some ref \<Rightarrow>
          (case gov ref of
             None \<Rightarrow> Inl (Error NotFoundError (''Government not found: '' @ ref))
           | Some gid \<Rightarrow> Inr (Some gid)))"

definition default_status :: "string \<Rightarrow> string" where
  "default_status type = (case map_of ENTITY_STATUSES type of Some (st # _) \<Rightarrow> st | _ \<Rightarrow> [])"

text \<open>
  \<open>create\<close>. The clock reading is \<open>now\<close>; the identifier that \<open>generateId\<close> returns,
  which depends on the clock and on random bytes and only reads the file, is \<open>new_id\<close>.
  The result pairs what the call returns or raises with the file afterwards.
\<close>

definition create ::
  "governments \<Rightarrow> string \<Rightarrow> string \<Rightarrow> store \<Rightarrow> string \<Rightarrow> input \<Rightarrow> (error + entity) \<times> store" where
  "create gov now new_id records type data =
     (case
        and_then (validateType type) (\<lambda>_.
        and_then (validateTitle (in_title data)) (\<lambda>_.
        and_then (validateBody (in_body data)) (\<lambda>_.
        and_then (resolve_gov gov (in_gov_id data)) (\<lambda>govId.
        and_then (validatePriority (case in_priority data of None \<Rightarrow> PNum 2 | Some p \<Rightarrow> p))
          (\<lambda>prio.
        and_then (if type = ''problem'' then validateLocation (in_location data) else Inr None)
          (\<lambda>loc.
        and_then (case in_relations data of
                    Val rels \<Rightarrow> validateRelations records rels type
                  | _ \<Rightarrow> Inr [])
          (\<lambda>rels.
        and_then (case in_status data of
                    None \<Rightarrow> Inr (default_status type)
                  | Some st \<Rightarrow>
                      if st = [] then Inr (default_status type)
                      else and_then (validateStatus st type) (\<lambda>_. Inr st))
          (\<lambda>st.
        Inr \<lparr> ent_id = new_id,
              ent_type = type,
              title = (case in_title data of Some t \<Rightarrow> trim t | None \<Rightarrow> []),
              body = trim_or_null (in_body data),
              priority = prio,
              status = st,
              gov_id = govId,
              relations = rels,
              metadata = (case in_metadata data of Val m \<Rightarrow> m | _ \<Rightarrow> []),
              created_at = now,
              updated_at = now,
              closed_at = None,
              history = [\<lparr> timestamp = now, action = ''created'', field = None,
                           old_value = None, new_value = None \<rparr>],
              location = (if type = ''problem'' then loc else None),
              report_count =
                (if type = ''problem''
                 then Some (case in_report_count data of
                              Some n \<Rightarrow> if n \<noteq> 0 then n else 1 | None \<Rightarrow> 1)
                 else None),
              supporters =
                (if type = ''idea''
                 then Some (case in_supporters data of Val xs \<Rightarrow> xs | _ \<Rightarrow> [])
                 else None),
              support_count =
                (if type = ''idea''
                 then Some (case in_support_count data of Val n \<Rightarrow> n | _ \<Rightarrow> 0)
                 else None),
              similar_ideas =
                (if type = ''idea''
                 then Some (case in_similar_ideas data of Some xs \<Rightarrow> xs | None \<Rightarrow> [])
                 else None),
              ai_classification = (if type = ''idea'' then truthy (in_ai_classification data) else None),
              assignee = (if type = ''action'' then truthy (in_assignee data) else None),
              due_date = (if type = ''action'' then truthy (in_due_date data) else None) \<rparr>))))))))
      of
        Inl e \<Rightarrow> (Inl e, records)
      | Inr entity \<Rightarrow> (Inr entity, appendRecord records entity))"

definition find :: "store \<Rightarrow> string \<Rightarrow> entity option" where
  "find records i = findById records i"

definition remove :: "store \<Rightarrow> string \<Rightarrow> bool \<times> store" where
  "remove records i = deleteRecord records i"

subsection \<open>update\<close>

text \<open>
  Each block of \<open>update\<close> is a step on the pair of \<open>allowedUpdates\<close> and
  \<open>historyEntries\<close>; a step that raises ends the call.
\<close>

type_synonym update_state = "patch \<times> history_entry list"

definition jv_of_opt :: "string option \<Rightarrow> jv" where
  "jv_of_opt x = (case x of None \<Rightarrow> JNull | Some s \<Rightarrow> JStr s)"

definition changed :: "string \<Rightarrow> string \<Rightarrow> string \<Rightarrow> jv \<Rightarrow> jv \<Rightarrow> history_entry" where
  "changed now act fld old new =
     \<lparr> timestamp = now, action = act, field = Some fld,
       old_value = Some old, new_value = Some new \<rparr>"

definition update_title :: "entity \<Rightarrow> string \<Rightarrow> input \<Rightarrow> update_state \<Rightarrow> error + update_state" where
  "update_title entity now updates st =
     (case in_title updates of
        None \<Rightarrow> Inr st
      | Some t \<Rightarrow>
          and_then (validateTitle (Some t)) (\<lambda>_.
            Inr ((fst st) \<lparr> set_title := Some (trim t) \<rparr>,
                 snd st @ [changed now ''title_changed'' ''title''
                             (JStr (title entity)) (JStr (trim t))])))"

definition update_body :: "input \<Rightarrow> update_state \<Rightarrow> error + update_state" where
  "update_body updates st =
     (if in_body updates = Absent then Inr st
      else and_then (validateBody (in_body updates)) (\<lambda>_.
             Inr ((fst st) \<lparr> set_body := Some (trim_or_null (in_body updates)) \<rparr>, snd st)))"

definition terminalStatuses :: "string list" where
  "terminalStatuses =
     [''resolved'', ''completed'', ''cancelled'', ''deprecated'', ''rejected'', ''superseded'']"

definition update_status :: "entity \<Rightarrow> string \<Rightarrow> input \<Rightarrow> update_state \<Rightarrow> error + update_state" where
  "update_status entity now updates st =
     (case in_status updates of
        None \<Rightarrow> Inr st
      | Some s \<Rightarrow>
          and_then (validateStatus s (ent_type entity)) (\<lambda>_.
            let allowed = (fst st) \<lparr> set_status := Some s \<rparr>;
                hist = snd st @ [changed now ''status_changed'' ''status''
                                   (JStr (status entity)) (JStr s)]
            in if s \<in> set terminalStatuses
               then Inr (allowed \<lparr> set_closed_at := Some (Some now) \<rparr>, hist)
               else if closed_at entity \<noteq> None \<and> closed_at entity \<noteq> Some []
               then Inr (allowed \<lparr> set_closed_at := Some None \<rparr>, hist)
               else Inr (allowed, hist)))"

definition update_priority :: "entity \<Rightarrow> string \<Rightarrow> input \<Rightarrow> update_state \<Rightarrow> error + update_state" where
  "update_priority entity now updates st =
     (case in_priority updates of
        None \<Rightarrow> Inr st
      | Some p \<Rightarrow>
          and_then (validatePriority p) (\<lambda>prio.
            Inr ((fst st) \<lparr> set_priority := Some prio \<rparr>,
                 snd st @ [changed now ''priority_changed'' ''priority''
                             (JNum (priority entity)) (JNum prio)])))"

definition update_gov ::
  "governments \<Rightarrow> entity \<Rightarrow> string \<Rightarrow> input \<Rightarrow> update_state \<Rightarrow> error + update_state" where
  "update_gov gov entity now updates st =
     (if in_gov_id updates = Absent then Inr st
      else and_then (resolve_gov gov (in_gov_id updates)) (\<lambda>govId.
             Inr ((fst st) \<lparr> set_gov_id := Some govId \<rparr>,
                  snd st @ [changed now (if govId \<noteq> None then ''assigned'' else ''unassigned'')
                              ''gov_id'' (jv_of_opt (gov_id entity)) (jv_of_opt govId)])))"

definition update_relations ::
  "store \<Rightarrow> entity \<Rightarrow> string \<Rightarrow> input \<Rightarrow> update_state \<Rightarrow> error + update_state" where
  "update_relations records entity now updates st =
     (if in_relations updates = Absent then Inr st
      else and_then (case in_relations updates of
                       Val rels \<Rightarrow> validateRelations records rels (ent_type entity)
                     | _ \<Rightarrow> Inr [])
             (\<lambda>rels.
               Inr ((fst st) \<lparr> set_relations := Some rels \<rparr>,
                    snd st @ [changed now ''relations_changed'' ''relations''
                                (JRels (relations entity)) (JRels rels)])))"

definition update_location :: "entity \<Rightarrow> input \<Rightarrow> update_state \<Rightarrow> error + update_state" where
  "update_location entity updates st =
     (if ent_type entity = ''problem'' \<and> in_location updates \<noteq> Absent
      then and_then (validateLocation (in_location updates)) (\<lambda>loc.
             Inr ((fst st) \<lparr> set_location := Some loc \<rparr>, snd st))
      else Inr st)"

text \<open>The blocks for actions and ideas, and the shallow merge of metadata; none raises.\<close>

definition update_action :: "entity \<Rightarrow> input \<Rightarrow> patch \<Rightarrow> patch" where
  "update_action entity updates allowed =
     (if ent_type entity = ''action''
      then allowed \<lparr>
             set_assignee := (case written (in_assignee updates) of
                                None \<Rightarrow> set_assignee allowed | Some v \<Rightarrow> Some v),
             set_due_date := (case written (in_due_date updates) of
                                None \<Rightarrow> set_due_date allowed | Some v \<Rightarrow> Some v) \<rparr>
      else allowed)"

definition update_idea :: "entity \<Rightarrow> input \<Rightarrow> patch \<Rightarrow> patch" where
  "update_idea entity updates allowed =
     (if ent_type entity = ''idea''
      then allowed \<lparr>
             set_support_count := (case written (in_support_count updates) of
                                     None \<Rightarrow> set_support_count allowed | Some v \<Rightarrow> Some v),
             set_supporters := (case written (in_supporters updates) of
                                  None \<Rightarrow> set_supporters allowed | Some v \<Rightarrow> Some v),
             set_ai_classification := (case written (in_ai_classification updates) of
                                         None \<Rightarrow> set_ai_classification allowed
                                       | Some v \<Rightarrow> Some v) \<rparr>
      else allowed)"

text \<open>
  \<open>{ ...entity.metadata, ...updates.metadata }\<close>: a key of the update replaces the value
  in place or is added at the end.
\<close>

fun put_key :: "string \<Rightarrow> string \<Rightarrow> (string \<times> string) list \<Rightarrow> (string \<times> string) list" where
  "put_key k v [] = [(k, v)]"
| "put_key k v ((k', v') # m) = (if k' = k then (k, v) # m else (k', v') # put_key k v m)"

definition spread :: "(string \<times> string) list \<Rightarrow> (string \<times> string) list \<Rightarrow> (string \<times> string) list" where
  "spread old new = foldl (\<lambda>m (k, v). put_key k v m) old new"

definition update_metadata :: "entity \<Rightarrow> input \<Rightarrow> patch \<Rightarrow> patch" where
  "update_metadata entity updates allowed =
     (case in_metadata updates of
        Absent \<Rightarrow> allowed
      | Null \<Rightarrow> allowed \<lparr> set_metadata := Some (metadata entity) \<rparr>
      | Val m \<Rightarrow> allowed \<lparr> set_metadata := Some (spread (metadata entity) m) \<rparr>)"

definition add_history :: "entity \<Rightarrow> update_state \<Rightarrow> patch" where
  "add_history entity st =
     (if length (snd st) > 0
      then (fst st) \<lparr> set_history := Some (history entity @ snd st) \<rparr>
      else fst st)"

definition allowed_updates ::
  "governments \<Rightarrow> string \<Rightarrow> store \<Rightarrow> entity \<Rightarrow> input \<Rightarrow> error + patch" where
  "allowed_updates gov now records entity updates =
     and_then (update_title entity now updates (no_patch, [])) (\<lambda>st1.
     and_then (update_body updates st1) (\<lambda>st2.
     and_then (update_status entity now updates st2) (\<lambda>st3.
     and_then (update_priority entity now updates st3) (\<lambda>st4.
     and_then (update_gov gov entity now updates st4) (\<lambda>st5.
     and_then (update_relations records entity now updates st5) (\<lambda>st6.
     and_then (update_location entity updates st6) (\<lambda>st7.
       Inr (add_history entity
              (update_metadata entity updates
                 (update_idea entity updates (update_action entity updates (fst st7))),
               snd st7)))))))))"

text \<open>
  \<open>update\<close>: \<open>null\<close> for an id that is not in the file, the error of the first block that
  raises, and otherwise what \<open>storage.updateRecord\<close> returns. The file changes in that
  last call only.
\<close>

definition update ::
  "governments \<Rightarrow> string \<Rightarrow> string \<Rightarrow> store \<Rightarrow> string \<Rightarrow> input
     \<Rightarrow> (error + entity option) \<times> store" where
  "update gov now stamp records i updates =
     (case find records i of
        None \<Rightarrow> (Inr None, records)
      | Some entity \<Rightarrow>
          (case allowed_updates gov now records entity updates of
             Inl e \<Rightarrow> (Inl e, records)
           | Inr allowed \<Rightarrow>
               (let (found, records') = updateRecord records i allowed stamp
                in (Inr found, records'))))"

subsection \<open>addRelation and close\<close>

definition addRelation ::
  "governments \<Rightarrow> string \<Rightarrow> string \<Rightarrow> store \<Rightarrow> string \<Rightarrow> string \<Rightarrow> string
     \<Rightarrow> (error + entity option) \<times> store" where
  "addRelation gov now stamp records sourceId relationType targetId =
     (case find records sourceId of
        None \<Rightarrow> (Inl (Error NotFoundError (''Source entity not found: '' @ sourceId)), records)
      | Some entity \<Rightarrow>
          (case validateRelation records \<lparr> rel_type = relationType, target = targetId \<rparr>
                  (ent_type entity) of
             Inl e \<Rightarrow> (Inl e, records)
           | Inr rel \<Rightarrow>
               let existingRelations = relations entity;
                   isDuplicate = list_ex (\<lambda>r. rel_type r = rel_type rel \<and> target r = target rel)
                                   existingRelations
               in if isDuplicate
                  then (Inl (Error ConflictError
                               (''Relation already exists: '' @ sourceId @ '' --['' @ relationType
                                  @ '']--> '' @ targetId)), records)
                  else update gov now stamp records sourceId
                         (no_input \<lparr> in_relations := Val (existingRelations @ [rel]) \<rparr>)))"

record close_options =
  rejected :: bool
  cancelled :: bool
  reason :: "string option"

definition close_status :: "close_options \<Rightarrow> (string \<times> string) list" where
  "close_status options =
     [(''goal'', ''deprecated''),
      (''problem'', ''resolved''),
      (''idea'', if rejected options then ''rejected'' else ''accepted''),
      (''action'', if cancelled options then ''cancelled'' else ''completed'')]"

definition close ::
  "governments \<Rightarrow> string \<Rightarrow> string \<Rightarrow> store \<Rightarrow> string \<Rightarrow> close_options
     \<Rightarrow> (error + entity option) \<times> store" where
  "close gov now stamp records i options =
     (case find records i of
        None \<Rightarrow> (Inr None, records)
      | Some entity \<Rightarrow>
          update gov now stamp records i
            (no_input \<lparr>
               in_status := map_of (close_status options) (ent_type entity),
               in_metadata := (case reason options of
                                 Some r \<Rightarrow> if r \<noteq> [] then Val [(''close_reason'', r)] else Absent
                               | None \<Rightarrow> Absent) \<rparr>))"

section \<open>Relations (relation.js)\<close>

definition DEPENDENCY_RELATIONS :: "string list" where
  "DEPENDENCY_RELATIONS = [''depends_on'', ''requires'', ''blocks'']"

text \<open>
  The loop of \<open>wouldCreateCycle\<close>, on \<open>visited\<close> (in insertion order) and \<open>queue\<close>.
  The targets that the edges reach from the file are finitely many, and each turn either
  visits a new one or shortens the queue.
\<close>

definition dep_targets :: "entity \<Rightarrow> string list \<Rightarrow> string list" where
  "dep_targets current visited =
     map target (filter (\<lambda>rel. rel_type rel \<in> set DEPENDENCY_RELATIONS
                                 \<and> target rel \<notin> set visited) (relations current))"

definition all_targets :: "store \<Rightarrow> string set" where
  "all_targets records = (\<Union>e \<in> set records. target ` set (relations e))"

function cycle_search :: "store \<Rightarrow> string \<Rightarrow> string list \<Rightarrow> string list \<Rightarrow> bool" where
  "cycle_search records sourceId visited [] = False"
| "cycle_search records sourceId visited (currentId # queue) =
     (if currentId = sourceId then True
      else if currentId \<in> set visited then cycle_search records sourceId visited queue
      else case find records currentId of
             None \<Rightarrow> cycle_search records sourceId (visited @ [currentId]) queue
           | Some current \<Rightarrow>
               cycle_search records sourceId (visited @ [currentId])
                 (queue @ dep_targets current (visited @ [currentId])))"
  by pat_completeness auto
termination cycle_search
proof (relation "(\<lambda>(records, sourceId, visited, queue).
                    card ((all_targets records \<union> set queue) - set visited))
                 <*mlex*> measure (\<lambda>(records, sourceId, visited, queue). length queue)",
       goal_cases)
  case 1
  show ?case by (simp add: wf_mlex)
next
  case (2 records sourceId visited currentId queue)
  have "card ((all_targets records \<union> set queue) - set visited)
        \<le> card ((all_targets records \<union> set (currentId # queue)) - set visited)"
    by (rule card_mono) (auto simp: all_targets_def)
  then show ?case by (auto intro: mlex_leq)
next
  case (3 records sourceId visited currentId queue)
  have "(all_targets records \<union> set queue) - set (visited @ [currentId])
        \<subset> (all_targets records \<union> set (currentId # queue)) - set visited"
    using 3 by auto
  then have "card ((all_targets records \<union> set queue) - set (visited @ [currentId]))
        < card ((all_targets records \<union> set (currentId # queue)) - set visited)"
    by (intro psubset_card_mono) (auto simp: all_targets_def)
  then show ?case by (auto intro: mlex_less)
next
  case (4 records sourceId visited currentId queue current)
  then have "current \<in> set records"
    by (auto simp: find_def findById_def find_Some_iff in_set_conv_nth)
  then have sub: "set (dep_targets current (visited @ [currentId])) \<subseteq> all_targets records"
    by (auto simp: dep_targets_def all_targets_def)
  have "(all_targets records \<union> set (queue @ dep_targets current (visited @ [currentId])))
          - set (visited @ [currentId])
        \<subset> (all_targets records \<union> set (currentId # queue)) - set visited"
    using 4 sub by auto
  then have "card ((all_targets records \<union> set (queue @ dep_targets current (visited @ [currentId])))
          - set (visited @ [currentId]))
        < card ((all_targets records \<union> set (currentId # queue)) - set visited)"
    by (intro psubset_card_mono) (auto simp: all_targets_def)
  then show ?case by (auto intro: mlex_less)
qed

definition wouldCreateCycle :: "store \<Rightarrow> string \<Rightarrow> string \<Rightarrow> string \<Rightarrow> bool" where
  "wouldCreateCycle records sourceId targetId relationType =
     (if relationType \<notin> set DEPENDENCY_RELATIONS then False
      else cycle_search records sourceId [] [targetId])"

definition link ::
  "governments \<Rightarrow> string \<Rightarrow> string \<Rightarrow> store \<Rightarrow> string \<Rightarrow> string \<Rightarrow> string
     \<Rightarrow> (error + entity option) \<times> store" where
  "link gov now stamp records sourceId relationType targetId =
     (if sourceId = targetId
      then (Inl (Error ValidationError ''Cannot create a relation to itself''), records)
      else if relationType \<in> set DEPENDENCY_RELATIONS
              \<and> wouldCreateCycle records sourceId targetId relationType
      then (Inl (Error CycleError
                   (''Adding this relation would create a cycle: '' @ sourceId @ '' -> ''
                      @ targetId)), records)
      else addRelation gov now stamp records sourceId relationType targetId)"

text \<open>
  \<open>findDependencies\<close>: the entities found for the \<open>depends_on\<close> targets, in the order of
  the relations; a target that is not in the file is dropped.
\<close>

definition findDependencies :: "store \<Rightarrow> string \<Rightarrow> entity list" where
  "findDependencies records entityId =
     (case find records entityId of
        None \<Rightarrow> []
      | Some ent \<Rightarrow>
          List.map_filter (\<lambda>rel. find records (target rel))
            (filter (\<lambda>rel. rel_type rel = ''depends_on'') (relations ent)))"

record blocker =
  b_id :: string
  b_title :: string
  b_status :: string

record blocked_status =
  blocked :: bool
  blockers :: "blocker list"

definition blocked_terminal :: "string list" where
  "blocked_terminal =
     [''completed'', ''resolved'', ''accepted'', ''cancelled'', ''deprecated'', ''rejected'']"

definition isBlocked :: "store \<Rightarrow> string \<Rightarrow> blocked_status" where
  "isBlocked records entityId =
     (let dependencies = findDependencies records entityId;
          bs = filter (\<lambda>dep. status dep \<notin> set blocked_terminal) dependencies
      in \<lparr> blocked = length bs > 0,
           blockers = map (\<lambda>b. \<lparr> b_id = ent_id b, b_title = title b, b_status = status b \<rparr>) bs \<rparr>)"

text \<open>
  The dependency graph of a file, for stating what the search decides: an edge leads from
  an id to each target of a dependency-forming relation of the record found for that id.
\<close>

definition dep_edges :: "store \<Rightarrow> (string \<times> string) set" where
  "dep_edges records =
     {(a, b). \<exists>e rel. find records a = Some e \<and> rel \<in> set (relations e)
                \<and> rel_type rel \<in> set DEPENDENCY_RELATIONS \<and> target rel = b}"

definition reaches :: "store \<Rightarrow> string \<Rightarrow> string \<Rightarrow> bool" where
  "reaches records a b = ((a, b) \<in> (dep_edges records)\<^sup>*)"

section \<open>Example files\<close>

text \<open>
  Files built by the operations themselves, for the concrete cases below: three actions,
  then \<open>ga-a001 depends_on ga-b002\<close>, then \<open>ga-b002\<close> deleted, which leaves the
  relation of \<open>ga-a001\<close> dangling; and a file with one idea.
\<close>

definition no_gov :: governments where
  "no_gov = (\<lambda>_. None)"

definition titled :: "string \<Rightarrow> input" where
  "titled t = no_input \<lparr> in_title := Some t \<rparr>"

definition file_a :: store where
  "file_a = snd (create no_gov ''2026-01-01T09:00:00.000Z'' ''ga-a001'' [] ''action''
                   (titled ''Fill the pothole''))"

definition file_ab :: store where
  "file_ab = snd (create no_gov ''2026-01-01T09:01:00.000Z'' ''ga-b002'' file_a ''action''
                    (titled ''Order asphalt''))"

definition file_abc :: store where
  "file_abc = snd (create no_gov ''2026-01-01T09:02:00.000Z'' ''ga-c003'' file_ab ''action''
                     (titled ''Inspect the road''))"

definition file_dep :: store where
  "file_dep = snd (link no_gov ''2026-01-02T09:00:00.000Z'' ''2026-01-02T09:00:00.001Z''
                     file_abc ''ga-a001'' ''depends_on'' ''ga-b002'')"

definition file_dangling :: store where
  "file_dangling = snd (remove file_dep ''ga-b002'')"

text \<open>
  A file in which one id occurs twice: the record of \<open>file_a\<close>, and a copy of it with
  an empty history.
\<close>

definition file_twice :: store where
  "file_twice = file_a @ map (\<lambda>e. e \<lparr> history := [] \<rparr>) file_a"

definition file_idea :: store where
  "file_idea = snd (create no_gov ''2026-01-01T09:00:00.000Z'' ''gd-d004'' [] ''idea''
                      (titled ''Add bike lanes''))"

definition plain_close :: close_options where
  "plain_close = \<lparr> rejected = False, cancelled = False, reason = None \<rparr>"

section \<open>Reading a call to update\<close>

text \<open>The keys of \<open>allowedUpdates\<close> that have a history entry.\<close>

definition tracked :: "patch \<Rightarrow> string option \<times> string option \<times> int option \<times> string option option \<times> relation list option" where
  "tracked a = (set_title a, set_status a, set_priority a, set_gov_id a, set_relations a)"

text \<open>
  The history entries that one call to \<open>update\<close> is expected to append, read off the
  entity before (\<open>e\<close>), the updates supplied and the entity returned (\<open>e'\<close>): one
  entry for each of title, status, priority, government and relations that is supplied,
  in this order, with the value before as \<open>old_value\<close> and the value returned as
  \<open>new_value\<close>. A body has no entry.
\<close>

definition history_of_update :: "entity \<Rightarrow> string \<Rightarrow> input \<Rightarrow> entity \<Rightarrow> history_entry list" where
  "history_of_update e now updates e' =
     (case in_title updates of
        None \<Rightarrow> []
      | Some _ \<Rightarrow> [changed now ''title_changed'' ''title'' (JStr (title e)) (JStr (title e'))])
     @ (case in_status updates of
          None \<Rightarrow> []
        | Some _ \<Rightarrow> [changed now ''status_changed'' ''status'' (JStr (status e)) (JStr (status e'))])
     @ (case in_priority updates of
          None \<Rightarrow> []
        | Some _ \<Rightarrow> [changed now ''priority_changed'' ''priority''
                       (JNum (priority e)) (JNum (priority e'))])
     @ (if in_gov_id updates = Absent then []
        else [changed now (if gov_id e' \<noteq> None then ''assigned'' else ''unassigned'') ''gov_id''
                (jv_of_opt (gov_id e)) (jv_of_opt (gov_id e'))])
     @ (if in_relations updates = Absent then []
        else [changed now ''relations_changed'' ''relations''
                (JRels (relations e)) (JRels (relations e'))])"


section \<open>Properties\<close>

subsection \<open>Similarity\<close>

lemma split_ws_from_not_Nil: "split_ws_from acc s \<noteq> []"
  by (induction acc s rule: split_ws_from.induct) auto

lemma words_of_not_Nil: "words_of t \<noteq> []"
  by (simp add: words_of_def split_ws_def split_ws_from_not_Nil)

lemma set_words_of: "set (words_of t) = word_set t"
  by (simp add: words_of_def word_set_def)

lemma calculateSimilarity_sets:
  "calculateSimilarity a b =
     (if a = [] \<or> b = [] then 0
      else of_nat (card (word_set a \<inter> word_set b)) / of_nat (card (word_set a \<union> word_set b)))"
proof -
  have i: "length (remdups (filter (\<lambda>x. x \<in> set (words_of b)) (words_of a)))
           = card (word_set a \<inter> word_set b)"
    by (simp add: length_remdups_card_conv set_words_of Int_def conj_commute)
  have u: "length (remdups (words_of a @ words_of b)) = card (word_set a \<union> word_set b)"
    by (simp add: length_remdups_card_conv set_words_of)
  show ?thesis
    unfolding calculateSimilarity_def Let_def i u by simp
qed

lemma words_from_skip: "words_from [] (dropWhile is_space s) = words_from [] s"
  by (induction s) simp_all

lemma split_nonempty_words:
  "filter (\<lambda>w. w \<noteq> []) (split_ws_from acc s) = words_from acc s"
  by (induction acc s rule: split_ws_from.induct) (simp_all add: words_from_skip)

lemma words_from_snoc_space:
  "is_space c \<Longrightarrow> words_from acc (s @ [c]) = words_from acc s"
  by (induction s arbitrary: acc) simp_all

lemma words_from_trailing:
  "\<forall>c \<in> set ws. is_space c \<Longrightarrow> words_from acc (s @ ws) = words_from acc s"
proof (induction ws rule: rev_induct)
  case Nil
  then show ?case by simp
next
  case (snoc c ws)
  then have "words_from acc ((s @ ws) @ [c]) = words_from acc (s @ ws)"
    by (intro words_from_snoc_space) simp
  with snoc show ?case by simp
qed

lemma ws_words_trim: "ws_words (trim s) = ws_words s"
proof -
  let ?d = "dropWhile is_space s"
  have "?d = rev (dropWhile is_space (rev ?d)) @ rev (takeWhile is_space (rev ?d))"
    by (metis rev_append rev_rev_ident takeWhile_dropWhile_id)
  moreover have "\<forall>c \<in> set (rev (takeWhile is_space (rev ?d))). is_space c"
    by (auto dest: set_takeWhileD)
  ultimately have "words_from [] ?d = words_from [] (rev (dropWhile is_space (rev ?d)))"
    by (metis words_from_trailing)
  then show ?thesis by (simp add: ws_words_def trim_def words_from_skip)
qed

lemma collapse_no_lead:
  "dropWhile is_space (replace_runs is_space '' '' (dropWhile is_space s))
   = replace_runs is_space '' '' (dropWhile is_space s)"
proof (cases "dropWhile is_space s")
  case Nil
  show ?thesis by (simp add: Nil)
next
  case (Cons c cs)
  then have "\<not> is_space c" by (metis hd_dropWhile list.sel(1) list.distinct(1))
  then show ?thesis by (simp add: Cons)
qed

lemma split_collapse:
  "split_ws_from acc (replace_runs is_space '' '' s) = split_ws_from acc s"
proof (induction acc s rule: split_ws_from.induct)
  case (1 acc)
  then show ?case by simp
next
  case (2 acc c cs)
  have sp: "is_space (CHR '' '')" by (simp add: is_space_def)
  show ?case
  proof (cases "is_space c")
    case True
    with 2 sp show ?thesis by (simp add: collapse_no_lead)
  next
    case False
    with 2 show ?thesis by simp
  qed
qed

lemma ws_words_collapse: "ws_words (replace_runs is_space '' '' s) = ws_words s"
  unfolding ws_words_def split_nonempty_words [symmetric] split_collapse ..

lemma split_empty_token:
  "[] \<in> set (split_ws_from acc s)
   \<Longrightarrow> (acc = [] \<and> (s = [] \<or> is_space (hd s))) \<or> (s \<noteq> [] \<and> is_space (last s))"
proof (induction acc s rule: split_ws_from.induct)
  case (1 acc)
  then show ?case by simp
next
  case (2 acc c cs)
  show ?case
  proof (cases "is_space c")
    case False
    with 2 have "cs \<noteq> [] \<and> is_space (last cs)" by auto
    then show ?thesis by simp
  next
    case True
    show ?thesis
    proof (cases "acc = []")
      case True
      with \<open>is_space c\<close> show ?thesis by simp
    next
      case False
      with 2 True have m: "[] \<in> set (split_ws_from [] (dropWhile is_space cs))" by simp
      have "is_space (last (c # cs))"
      proof (cases "dropWhile is_space cs")
        case Nil
        then have "\<forall>x \<in> set cs. is_space x" by (simp add: dropWhile_eq_Nil_conv)
        with True show ?thesis by (cases cs rule: rev_cases) auto
      next
        case (Cons d ds)
        then have nd: "\<not> is_space d" by (metis hd_dropWhile list.sel(1) list.distinct(1))
        from "2.IH"(1) [OF True m] Cons nd
        have "is_space (last (dropWhile is_space cs))" by auto
        moreover have "last (dropWhile is_space cs) = last cs"
          using Cons by (metis append_Nil2 last_appendR list.distinct(1) takeWhile_dropWhile_id)
        moreover have "cs \<noteq> []" using Cons by auto
        ultimately show ?thesis by simp
      qed
      then show ?thesis by simp
    qed
  qed
qed

lemma trim_ends:
  "trim s \<noteq> [] \<Longrightarrow> \<not> is_space (hd (trim s)) \<and> \<not> is_space (last (trim s))"
proof -
  assume ne: "trim s \<noteq> []"
  let ?d = "dropWhile is_space s"
  let ?e = "dropWhile is_space (rev ?d)"
  from ne have e: "?e \<noteq> []" by (simp add: trim_def)
  have d: "?d \<noteq> []"
  proof
    assume "?d = []"
    then have "?e = []" by (simp only: rev.simps dropWhile.simps)
    with e show False by simp
  qed
  have l: "\<not> is_space (last (trim s))"
    using e by (simp add: trim_def last_rev hd_dropWhile)
  have "hd (trim s) = last ?e" using e by (simp add: trim_def hd_rev)
  also have "\<dots> = last (rev ?d)"
    using e by (metis append_Nil2 last_appendR takeWhile_dropWhile_id)
  also have "\<dots> = hd ?d" using d by (simp add: last_rev)
  finally have "\<not> is_space (hd (trim s))" using d by (simp add: hd_dropWhile)
  with l show ?thesis by simp
qed

lemma word_set_tokens_ref: "word_set text = tokens_ref text"
proof -
  let ?s = "lower_stripped text"
  let ?t = "trim (replace_runs is_space '' '' ?s)"
  have n: "normalizeText text = ?t"
    by (simp add: normalizeText_def lower_stripped_def is_punct_def)
  have w: "ws_words ?t = ws_words ?s"
    by (simp add: ws_words_trim ws_words_collapse)
  have f: "filter (\<lambda>w. w \<noteq> []) (split_ws ?t) = ws_words ?s"
    using w by (simp add: split_ws_def ws_words_def split_nonempty_words)
  show ?thesis
  proof (cases "?t = []")
    case True
    then have "ws_words ?s = []" using w by (simp add: ws_words_def)
    with True show ?thesis
      by (simp add: word_set_def tokens_ref_def words_ref_def n split_ws_def)
  next
    case False
    have "[] \<notin> set (split_ws ?t)"
      using split_empty_token [of "[]" ?t] trim_ends [OF False] False
      by (auto simp: split_ws_def)
    then have "filter (\<lambda>w. w \<noteq> []) (split_ws ?t) = split_ws ?t"
      by (auto simp: filter_id_conv)
    with f have eq: "split_ws ?t = ws_words ?s" by simp
    have "split_ws ?t \<noteq> []" by (simp add: split_ws_def split_ws_from_not_Nil)
    with eq show ?thesis by (simp add: word_set_def tokens_ref_def words_ref_def n)
  qed
qed


lemma ws_words_nonempty: "[] \<notin> set (ws_words s)"
proof -
  have "set (ws_words s) = set (filter (\<lambda>w. w \<noteq> []) (split_ws_from [] s))"
    by (simp only: ws_words_def split_nonempty_words)
  then show ?thesis by simp
qed

lemma jaccard_tokens_words:
  assumes "words_ref a \<noteq> {} \<or> words_ref b \<noteq> {}"
  shows "jaccard (tokens_ref a) (tokens_ref b) = jaccard (words_ref a) (words_ref b)"
proof -
  have n: "[] \<notin> words_ref a" "[] \<notin> words_ref b"
    by (simp_all add: words_ref_def ws_words_nonempty)
  show ?thesis
  proof (cases "words_ref a = {}")
    case True
    with assms have "words_ref b \<noteq> {}" by simp
    with True n show ?thesis by (simp add: tokens_ref_def jaccard_def)
  next
    case a: False
    show ?thesis
    proof (cases "words_ref b = {}")
      case True
      with a n show ?thesis by (simp add: tokens_ref_def jaccard_def)
    next
      case False
      with a show ?thesis by (simp add: tokens_ref_def)
    qed
  qed
qed

text \<open>
  C7. \<open>calculateSimilarity\<close> is 0 when either text is empty and otherwise the Jaccard
  coefficient of the two sets of tokens, where the tokens of a text are its lower-case,
  punctuation-stripped, whitespace-separated words (and the one empty token when the text
  has no word). Whenever one of the two texts has a word, that is the Jaccard coefficient
  of the two sets of words themselves. The function is symmetric; it gives 1 on the
  example of the specification, also when the two texts differ in letter case,
  punctuation and spacing only, and 0 on two texts without a common word.
\<close>

theorem calculateSimilarity_jaccard:
  "calculateSimilarity a b =
     (if a = [] \<or> b = [] then 0 else jaccard (tokens_ref a) (tokens_ref b))
   \<and> (a \<noteq> [] \<and> b \<noteq> [] \<and> (words_ref a \<noteq> {} \<or> words_ref b \<noteq> {})
        \<longrightarrow> calculateSimilarity a b = jaccard (words_ref a) (words_ref b))
   \<and> calculateSimilarity a b = calculateSimilarity b a
   \<and> calculateSimilarity ''pothole on main street'' ''pothole on main street'' = 1
   \<and> calculateSimilarity ''  Pothole, on MAIN   street!  '' ''pothole on main street'' = 1
   \<and> calculateSimilarity ''Hello, World'' ''hello world'' = 1
   \<and> calculateSimilarity ''a b c'' ''x y z'' = 0"
proof (intro conjI impI)
  show j: "calculateSimilarity a b =
     (if a = [] \<or> b = [] then 0 else jaccard (tokens_ref a) (tokens_ref b))"
    by (simp add: calculateSimilarity_sets jaccard_def word_set_tokens_ref)
  show "calculateSimilarity a b = jaccard (words_ref a) (words_ref b)"
    if "a \<noteq> [] \<and> b \<noteq> [] \<and> (words_ref a \<noteq> {} \<or> words_ref b \<noteq> {})"
    using that j jaccard_tokens_words [of a b] by simp
  show "calculateSimilarity a b = calculateSimilarity b a"
    by (simp add: calculateSimilarity_sets Int_commute Un_commute disj_commute)
  show "calculateSimilarity ''pothole on main street'' ''pothole on main street'' = 1"
    by code_simp
  show "calculateSimilarity ''  Pothole, on MAIN   street!  '' ''pothole on main street'' = 1"
    by code_simp
  show "calculateSimilarity ''Hello, World'' ''hello world'' = 1"
    by code_simp
  show "calculateSimilarity ''a b c'' ''x y z'' = 0"
    by code_simp
qed

theorem calculateSimilarity_jaccard_witness:
  "calculateSimilarity ''A, b!'' ''b   C'' = jaccard (words_ref ''A, b!'') (words_ref ''b   C'')
   \<and> words_ref ''A, b!'' = {''a'', ''b''} \<and> words_ref ''b   C'' = {''b'', ''c''}
   \<and> calculateSimilarity ''A, b!'' ''b   C'' = 1 / 3
   \<and> calculateSimilarity ''b   C'' ''A, b!'' = 1 / 3
   \<and> calculateSimilarity ''Hello, World'' ''...'' = jaccard (words_ref ''Hello, World'') {}"
proof -
  have w: "words_ref ''A, b!'' = {''a'', ''b''}" "words_ref ''b   C'' = {''b'', ''c''}"
    "words_ref ''Hello, World'' = {''hello'', ''world''}" "words_ref ''...'' = {}"
    unfolding words_ref_def by code_simp+
  have c: "calculateSimilarity ''A, b!'' ''b   C'' = 1 / 3" by code_simp
  from calculateSimilarity_jaccard [of "''A, b!''" "''b   C''"] w
  have 1: "calculateSimilarity ''A, b!'' ''b   C''
           = jaccard (words_ref ''A, b!'') (words_ref ''b   C'')"
    and 2: "calculateSimilarity ''A, b!'' ''b   C'' = calculateSimilarity ''b   C'' ''A, b!''"
    by simp_all
  from calculateSimilarity_jaccard [of "''Hello, World''" "''...''"] w
  have 3: "calculateSimilarity ''Hello, World'' ''...''
           = jaccard (words_ref ''Hello, World'') (words_ref ''...'')"
    by simp
  show ?thesis using 1 2 3 c w by simp
qed

text \<open>
  C10. Two non-empty texts that both normalize to the empty string score 1: the empty
  string splits into one empty piece, so both word sets are the set of the empty word.
  The union of the two word sets is never empty, whatever the texts, so the guard on its
  size never fires; for non-empty texts the score is 0 exactly when the word sets are
  disjoint.
\<close>

theorem calculateSimilarity_empty_token:
  "(text1 \<noteq> [] \<and> text2 \<noteq> [] \<and> normalizeText text1 = [] \<and> normalizeText text2 = []
      \<longrightarrow> calculateSimilarity text1 text2 = 1)
   \<and> 0 < length (remdups (words_of text1 @ words_of text2))
   \<and> (text1 \<noteq> [] \<and> text2 \<noteq> []
      \<longrightarrow> (calculateSimilarity text1 text2 = 0 \<longleftrightarrow> word_set text1 \<inter> word_set text2 = {}))"
proof (intro conjI impI)
  assume h: "text1 \<noteq> [] \<and> text2 \<noteq> [] \<and> normalizeText text1 = [] \<and> normalizeText text2 = []"
  then have "word_set text1 = {[]}" "word_set text2 = {[]}"
    by (simp_all add: word_set_def split_ws_def)
  with h show "calculateSimilarity text1 text2 = 1"
    by (simp add: calculateSimilarity_sets)
next
  show "0 < length (remdups (words_of text1 @ words_of text2))"
    using words_of_not_Nil [of text1] by simp
next
  assume h: "text1 \<noteq> [] \<and> text2 \<noteq> []"
  have fin: "finite (word_set text1 \<union> word_set text2)"
    by (simp add: word_set_def)
  have ne: "word_set text1 \<union> word_set text2 \<noteq> {}"
    using split_ws_from_not_Nil [of "[]" "normalizeText text1"]
    by (simp add: word_set_def split_ws_def)
  have "card (word_set text1 \<union> word_set text2) \<noteq> 0"
    using fin ne by simp
  moreover have "finite (word_set text1 \<inter> word_set text2)"
    by (simp add: word_set_def)
  ultimately show "calculateSimilarity text1 text2 = 0 \<longleftrightarrow> word_set text1 \<inter> word_set text2 = {}"
    using h by (simp add: calculateSimilarity_sets)
qed

theorem calculateSimilarity_empty_token_witness:
  "calculateSimilarity ''!!!'' ''???'' = 1
   \<and> ''!!!'' \<noteq> [] \<and> ''???'' \<noteq> [] \<and> normalizeText ''!!!'' = [] \<and> normalizeText ''???'' = []
   \<and> calculateSimilarity ''a b'' ''c'' = 0 \<and> word_set ''a b'' \<inter> word_set ''c'' = {}"
proof -
  have n: "normalizeText ''!!!'' = []" "normalizeText ''???'' = []"
    by code_simp+
  have z: "calculateSimilarity ''a b'' ''c'' = 0" by code_simp
  from calculateSimilarity_empty_token [of "''!!!''" "''???''"] n
  have "calculateSimilarity ''!!!'' ''???'' = 1" by simp
  moreover from calculateSimilarity_empty_token [of "''a b''" "''c''"] z
  have "word_set ''a b'' \<inter> word_set ''c'' = {}" by simp
  ultimately show ?thesis using n z by simp
qed

subsection \<open>Classification\<close>

lemma starts_with_iff: "starts_with s k \<longleftrightarrow> (\<exists>v. s = k @ v)"
  by (induction s k rule: starts_with.induct) auto

lemma str_includes_iff: "str_includes s k \<longleftrightarrow> (\<exists>u v. s = u @ k @ v)"
proof (induction s)
  case Nil
  then show ?case by simp
next
  case (Cons c cs)
  have "(\<exists>u v. c # cs = u @ k @ v) \<longleftrightarrow> (\<exists>v. c # cs = k @ v) \<or> (\<exists>u v. cs = u @ k @ v)"
  proof
    assume "\<exists>u v. c # cs = u @ k @ v"
    then obtain u v where uv: "c # cs = u @ k @ v" by blast
    show "(\<exists>v. c # cs = k @ v) \<or> (\<exists>u v. cs = u @ k @ v)"
    proof (cases u)
      case Nil
      with uv show ?thesis by auto
    next
      case (Cons a u')
      with uv have "cs = u' @ k @ v" by simp
      then show ?thesis by blast
    qed
  next
    assume "(\<exists>v. c # cs = k @ v) \<or> (\<exists>u v. cs = u @ k @ v)"
    then show "\<exists>u v. c # cs = u @ k @ v"
    proof
      assume "\<exists>v. c # cs = k @ v"
      then obtain v where "c # cs = [] @ k @ v" by auto
      then show ?thesis by blast
    next
      assume "\<exists>u v. cs = u @ k @ v"
      then obtain u v where "c # cs = (c # u) @ k @ v" by auto
      then show ?thesis by blast
    qed
  qed
  with Cons show ?case by (simp add: starts_with_iff)
qed

lemma keywords_lower: "\<forall>t \<in> set type_order. \<forall>k \<in> set (keywords_of t). toLowerCase k = k"
  by code_simp

lemma keywords_distinct: "\<forall>t \<in> set type_order. distinct (keywords_of t)"
  by code_simp

lemma score_ref_code:
  assumes "t \<in> set type_order"
  shows "score_ref t text = keyword_score (toLowerCase text) (keywords_of t)"
proof -
  have "occurs_in k text = str_includes (toLowerCase text) k" if "k \<in> set (keywords_of t)" for k
  proof -
    have "toLowerCase k = k" using keywords_lower assms that by blast
    then show ?thesis by (simp add: occurs_in_def str_includes_iff)
  qed
  then have eq: "{k. k \<in> set (keywords_of t) \<and> occurs_in k text}
            = set (filter (str_includes (toLowerCase text)) (keywords_of t))"
    by auto
  have "distinct (filter (str_includes (toLowerCase text)) (keywords_of t))"
    using keywords_distinct assms by simp
  then have "card (set (filter (str_includes (toLowerCase text)) (keywords_of t)))
             = length (filter (str_includes (toLowerCase text)) (keywords_of t))"
    by (rule distinct_card)
  then show ?thesis
    unfolding score_ref_def keyword_score_def eq .
qed

lemma scores_code:
  "map (\<lambda>(type, keywords). (type, keyword_score (toLowerCase text) keywords)) TYPE_KEYWORDS
   = map (\<lambda>t. (t, score_ref t text)) type_order"
proof -
  have k: "map (\<lambda>t. (t, keywords_of t)) type_order = TYPE_KEYWORDS"
    by code_simp
  have "map (\<lambda>t. (t, score_ref t text)) type_order
        = map (\<lambda>t. (t, keyword_score (toLowerCase text) (keywords_of t))) type_order"
    by (rule map_cong) (simp_all add: score_ref_code)
  also have "\<dots> = map (\<lambda>(type, keywords). (type, keyword_score (toLowerCase text) keywords))
                     (map (\<lambda>t. (t, keywords_of t)) type_order)"
    by (simp add: comp_def)
  finally show ?thesis by (simp add: k)
qed

lemma best_loop_four:
  "best_loop [(''goal'', g), (''problem'', p), (''idea'', i), (''action'', a)] (''idea'', 0, 0)
   = ((if g + p + i + a = 0 then ''idea''
       else case List.find (\<lambda>t. snd t = Max {g, p, i, a})
                   [(''goal'', g), (''problem'', p), (''idea'', i), (''action'', a)] of
              Some t \<Rightarrow> fst t | None \<Rightarrow> ''idea''),
      Max {g, p, i, a}, g + p + i + a)"
  by (auto simp: max_def)

lemma classify_triple:
  "best_loop (map (\<lambda>t. (t, score_ref t text)) type_order) (''idea'', 0, 0)
   = (type_ref text, best_score_ref text, total_score_ref text)"
  unfolding type_order_def list.map best_loop_four
  by (simp add: type_ref_def best_score_ref_def total_score_ref_def type_order_def add.assoc)

lemma classifyText_fields:
  "ctype (classifyText text) = type_ref text"
  "scores (classifyText text) = map (\<lambda>t. (t, score_ref t text)) type_order"
  "confidence (classifyText text) = round2 (confidence_ref text)"
  unfolding classifyText_def scores_code classify_triple Let_def
  by (simp_all add: confidence_ref_def)

lemma pothole_scores:
  "map (\<lambda>t. score_ref t ''fix the broken pothole'') type_order = [0, 2, 0, 1]"
proof -
  have "map (\<lambda>t. score_ref t ''fix the broken pothole'') type_order
        = map (\<lambda>t. keyword_score (toLowerCase ''fix the broken pothole'') (keywords_of t))
            type_order"
    by (rule map_cong) (simp_all add: score_ref_code)
  also have "\<dots> = [0, 2, 0, 1]" by code_simp
  finally show ?thesis .
qed

text \<open>
  C6, as the claim states it, fails on the confidence: the value returned is rounded to
  two decimals. For ``fix the broken pothole'' the scores are 2 for problem and 1 for
  action, the quotient is 2/3 and the confidence returned is 0.67.
\<close>

theorem classifyText_confidence_counterexample:
  "confidence_ref ''fix the broken pothole'' = 2 / 3
   \<and> confidence (classifyText ''fix the broken pothole'') = 67 / 100
   \<and> confidence (classifyText ''fix the broken pothole'')
       \<noteq> confidence_ref ''fix the broken pothole''"
proof -
  have r: "confidence_ref ''fix the broken pothole'' = 2 / 3"
    using pothole_scores
    by (simp add: confidence_ref_def total_score_ref_def best_score_ref_def type_order_def)
  have c: "confidence (classifyText ''fix the broken pothole'') = 67 / 100"
    by code_simp
  show ?thesis unfolding r c by simp
qed

text \<open>
  C6, amended. \<open>classifyText\<close> agrees with the reference definition on the type and on
  the scores: each score counts the keywords of the type that occur in the text, letter
  case ignored; the type is the first of goal, problem, idea, action with the highest
  score, and idea when every score is zero. The confidence returned is the reference
  confidence (best score over the sum of the scores, a quarter when every score is zero)
  rounded to two decimals. ``fix the broken streetlight'' is classified as problem with a
  positive confidence.
\<close>

theorem classifyText_reference:
  "ctype (classifyText text) = type_ref text
   \<and> scores (classifyText text) = map (\<lambda>t. (t, score_ref t text)) type_order
   \<and> confidence (classifyText text) = round2 (confidence_ref text)
   \<and> ctype (classifyText ''fix the broken streetlight'') = ''problem''
   \<and> confidence (classifyText ''fix the broken streetlight'') > 0"
proof (intro conjI)
  show "ctype (classifyText ''fix the broken streetlight'') = ''problem''"
    by code_simp
  have "confidence (classifyText ''fix the broken streetlight'') = 1 / 2"
    by code_simp
  then show "confidence (classifyText ''fix the broken streetlight'') > 0"
    by simp
qed (simp_all add: classifyText_fields)

theorem classifyText_reference_witness:
  "type_ref ''fix the broken pothole'' = ''problem''
   \<and> map (\<lambda>t. (t, score_ref t ''fix the broken pothole'')) type_order
       = [(''goal'', 0), (''problem'', 2), (''idea'', 0), (''action'', 1)]
   \<and> round2 (confidence_ref ''fix the broken pothole'') = 67 / 100"
proof -
  have "ctype (classifyText ''fix the broken pothole'') = ''problem''"
       "scores (classifyText ''fix the broken pothole'')
          = [(''goal'', 0), (''problem'', 2), (''idea'', 0), (''action'', 1)]"
       "confidence (classifyText ''fix the broken pothole'') = 67 / 100"
    by code_simp+
  then show ?thesis
    using classifyText_reference [of "''fix the broken pothole''"] by simp
qed

subsection \<open>Slugs\<close>

lemma space_non_alnum: "is_space c \<Longrightarrow> non_alnum c"
  by (auto simp: is_space_def non_alnum_def is_lower_alnum_def lower_chars_def digit_chars_def)

lemma hyphen_non_alnum: "non_alnum (CHR ''-'')"
  by (simp add: non_alnum_def is_lower_alnum_def lower_chars_def digit_chars_def)

lemma replace_runs_snoc:
  "replace_runs p [h] (s @ [c]) =
     (if p c then (if s \<noteq> [] \<and> p (last s) then replace_runs p [h] s
                   else replace_runs p [h] s @ [h])
      else replace_runs p [h] s @ [c])"
proof (induction p "[h]" s rule: replace_runs.induct)
  case (1 p)
  then show ?case by simp
next
  case (2 p a as)
  show ?case
  proof (cases "p a")
    case False
    with 2 show ?thesis by (cases as) auto
  next
    case pa: True
    show ?thesis
    proof (cases "\<forall>x\<in>set as. p x")
      case True
      then have d: "dropWhile p as = []" "dropWhile p (as @ [c]) = dropWhile p [c]"
        by (simp_all add: dropWhile_append2)
      have "p (last (a # as))" using True pa by (cases as rule: rev_cases) auto
      then show ?thesis using pa by (simp add: d)
    next
      case False
      then have d: "dropWhile p (as @ [c]) = dropWhile p as @ [c]"
        by (metis dropWhile_append1)
      from False have ne: "dropWhile p as \<noteq> []" by (simp add: dropWhile_eq_Nil_conv)
      then have l: "last (dropWhile p as) = last as"
        by (metis append_Nil2 last_appendR takeWhile_dropWhile_id)
      from ne have "as \<noteq> []" by auto
      then have l2: "last (a # as) = last as" by simp
      show ?thesis using pa d ne l l2 "2.hyps"(1) [OF pa] by simp
    qed
  qed
qed

lemma replace_runs_rev: "replace_runs p [h] (rev s) = rev (replace_runs p [h] s)"
proof (induction s)
  case Nil
  then show ?case by simp
next
  case (Cons a as)
  show ?case
  proof (cases "p a")
    case False
    with Cons show ?thesis by (simp add: replace_runs_snoc)
  next
    case pa: True
    show ?thesis
    proof (cases as)
      case Nil
      with pa show ?thesis by simp
    next
      case c: (Cons b bs)
      then have l: "rev as \<noteq> []" "last (rev as) = b" by simp_all
      show ?thesis
      proof (cases "p b")
        case True
        have "replace_runs p [h] (rev (a # as)) = replace_runs p [h] (rev as)"
          using pa True l replace_runs_snoc [of p h "rev as" a] by simp
        also have "\<dots> = rev (replace_runs p [h] as)" by (rule Cons.IH)
        also have "replace_runs p [h] as = replace_runs p [h] (a # as)"
          using pa True c by simp
        finally show ?thesis .
      next
        case False
        have "replace_runs p [h] (rev (a # as)) = replace_runs p [h] (rev as) @ [h]"
          using pa False l replace_runs_snoc [of p h "rev as" a] by simp
        also have "\<dots> = rev (replace_runs p [h] as) @ [h]" by (simp add: Cons.IH)
        also have "\<dots> = rev (replace_runs p [h] (a # as))"
          using pa False c by simp
        finally show ?thesis .
      qed
    qed
  qed
qed

lemma strip_hyphens_split: "strip_hyphens t = strip_trail (strip_lead t)"
  by (simp add: strip_hyphens_def strip_lead_def strip_trail_def Let_def)

lemma strip_trail_rev: "strip_trail t = rev (strip_lead (rev t))"
  by (cases t rule: rev_cases) (simp_all add: strip_trail_def strip_lead_def)

lemma strip_commute: "strip_trail (strip_lead t) = strip_lead (strip_trail t)"
proof (cases t)
  case Nil
  then show ?thesis by (simp add: strip_trail_def strip_lead_def)
next
  case (Cons c cs)
  then show ?thesis
    by (cases cs rule: rev_cases) (auto simp: strip_trail_def strip_lead_def)
qed

lemma slug_runs_no_lead:
  "replace_runs non_alnum ''-'' (dropWhile non_alnum s) = [] \<or>
   hd (replace_runs non_alnum ''-'' (dropWhile non_alnum s)) \<noteq> CHR ''-''"
proof (cases "dropWhile non_alnum s")
  case Nil
  show ?thesis by (simp add: Nil)
next
  case (Cons c cs)
  then have "\<not> non_alnum c" by (metis hd_dropWhile list.sel(1) list.distinct(1))
  then have "c \<noteq> CHR ''-''" using hyphen_non_alnum by auto
  then show ?thesis using \<open>\<not> non_alnum c\<close> by (simp add: Cons)
qed

lemma dropWhile_hyphen_runs:
  "dropWhile (\<lambda>c. c = CHR ''-'') (replace_runs non_alnum ''-'' s)
   = replace_runs non_alnum ''-'' (dropWhile non_alnum s)"
proof (cases s)
  case Nil
  then show ?thesis by simp
next
  case (Cons c cs)
  show ?thesis
  proof (cases "non_alnum c")
    case True
    have "dropWhile (\<lambda>c. c = CHR ''-'') (replace_runs non_alnum ''-'' (dropWhile non_alnum cs))
          = replace_runs non_alnum ''-'' (dropWhile non_alnum cs)"
      using slug_runs_no_lead [of cs]
      by (cases "replace_runs non_alnum ''-'' (dropWhile non_alnum cs)") auto
    then show ?thesis using Cons True by simp
  next
    case False
    then have "c \<noteq> CHR ''-''" using hyphen_non_alnum by auto
    then show ?thesis using Cons False by simp
  qed
qed

lemma strip_lead_runs:
  "strip_lead (replace_runs non_alnum ''-'' s) = replace_runs non_alnum ''-'' (dropWhile non_alnum s)"
proof (cases s)
  case Nil
  then show ?thesis by (simp add: strip_lead_def)
next
  case (Cons c cs)
  show ?thesis
  proof (cases "non_alnum c")
    case True
    then show ?thesis using Cons by (simp add: strip_lead_def)
  next
    case False
    then have "c \<noteq> CHR ''-''" using hyphen_non_alnum by auto
    then show ?thesis using Cons False by (simp add: strip_lead_def)
  qed
qed

lemma strip_trail_runs:
  "strip_trail (replace_runs non_alnum ''-'' s)
   = replace_runs non_alnum ''-'' (rev (dropWhile non_alnum (rev s)))"
  by (simp add: strip_trail_rev replace_runs_rev [symmetric] strip_lead_runs)

lemma dropWhile_space_absorbed: "dropWhile non_alnum (dropWhile is_space s) = dropWhile non_alnum s"
  by (induction s) (auto simp: space_non_alnum)

lemma strip_hyphens_trim:
  "strip_hyphens (replace_runs non_alnum ''-'' (trim s))
   = strip_hyphens (replace_runs non_alnum ''-'' s)"
proof -
  let ?R = "replace_runs non_alnum ''-''"
  have "strip_hyphens (?R (trim s)) = strip_lead (strip_trail (?R (trim s)))"
    by (simp add: strip_hyphens_split strip_commute)
  also have "\<dots> = strip_lead (?R (rev (dropWhile non_alnum (rev (dropWhile is_space s)))))"
    by (simp add: strip_trail_runs trim_def dropWhile_space_absorbed)
  also have "\<dots> = strip_lead (strip_trail (?R (dropWhile is_space s)))"
    by (simp add: strip_trail_runs)
  also have "\<dots> = strip_trail (strip_lead (?R (dropWhile is_space s)))"
    by (simp add: strip_commute)
  also have "\<dots> = strip_trail (strip_lead (?R s))"
    by (simp add: strip_lead_runs dropWhile_space_absorbed)
  finally show ?thesis by (simp add: strip_hyphens_split)
qed

lemma trim_hyphens_runs:
  "trim_hyphens (replace_runs non_alnum ''-'' s) = strip_hyphens (replace_runs non_alnum ''-'' s)"
proof -
  let ?R = "replace_runs non_alnum ''-''"
  have "rev (dropWhile (\<lambda>c. c = CHR ''-'') (rev (?R u))) = strip_trail (?R u)" for u
    by (simp add: replace_runs_rev [symmetric] dropWhile_hyphen_runs strip_trail_runs)
  then show ?thesis
    by (simp add: trim_hyphens_def dropWhile_hyphen_runs strip_hyphens_split strip_lead_runs)
qed

lemma generateSlug_slug_ref: "generateSlug name = slug_ref name"
  by (simp add: generateSlug_def slug_ref_def strip_hyphens_trim trim_hyphens_runs)

lemma slug_loop_first:
  "c \<le> k \<Longrightarrow> k < 1000 \<Longrightarrow> \<not> ex (base @ ''-'' @ show_nat k)
   \<Longrightarrow> (\<forall>j. c \<le> j \<and> j < k \<longrightarrow> ex (base @ ''-'' @ show_nat j))
   \<Longrightarrow> slug_loop ex base c = Some (base @ ''-'' @ show_nat k)"
proof (induction ex base c rule: slug_loop.induct)
  case (1 ex base c)
  show ?case
  proof (cases "c = k")
    case True
    with 1 show ?thesis by (simp del: show_nat.simps)
  next
    case False
    with 1 have "c < k" "ex (base @ ''-'' @ show_nat c)" by auto
    then show ?thesis using 1 by (simp del: show_nat.simps)
  qed
qed

lemma slug_loop_none:
  "(\<forall>j. c \<le> j \<and> j < 1000 \<longrightarrow> ex (base @ ''-'' @ show_nat j)) \<Longrightarrow> slug_loop ex base c = None"
proof (induction ex base c rule: slug_loop.induct)
  case (1 ex base c)
  then show ?case by (cases "c < 1000") (simp_all del: show_nat.simps)
qed

lemma hex_of_bytes_length: "length (hex_of_bytes bs) = 2 * length bs"
  by (induction bs) (simp_all add: hex_of_bytes_def)

lemma hex_of_bytes_chars: "set (hex_of_bytes bs) \<subseteq> set hex_chars"
proof -
  have l: "length hex_chars = 16" by (simp add: hex_chars_def)
  have "unat b div 16 < 16" for b :: "8 word"
    using unsigned_less [of b, where ?'a = nat] by simp
  then have "unat b div 16 < length hex_chars" for b :: "8 word"
    unfolding l .
  moreover have "unat b mod 16 < length hex_chars" for b :: "8 word"
    unfolding l by simp
  ultimately show ?thesis
    by (auto simp: hex_of_bytes_def)
qed

text \<open>
  C9. \<open>generateSlug\<close> is the slug of the specification: lower-case, each run of
  non-alphanumeric characters replaced by one hyphen, hyphens trimmed at both ends, cut
  to 100 characters; the example gives \<open>travis-county\<close>. \<open>makeSlugUnique\<close> returns
  the base when it is free; otherwise the first free \<open>base-k\<close> for \<open>k\<close> from 2 while
  \<open>k < 1000\<close>; and when all of those exist, the base with the hexadecimal rendering of
  the random bytes, which is six hexadecimal digits for three bytes. The three cases
  cover every \<open>existsCheck\<close>, and the function is total: it returns a slug in each.
\<close>

theorem generateSlug_makeSlugUnique:
  "generateSlug name = slug_ref name
   \<and> generateSlug ''  Travis County!!! '' = ''travis-county''
   \<and> (\<not> existsCheck base \<longrightarrow> makeSlugUnique base existsCheck random3 = base)
   \<and> (existsCheck base \<and> 2 \<le> k \<and> k < 1000 \<and> \<not> existsCheck (base @ ''-'' @ show_nat k)
        \<and> (\<forall>j. 2 \<le> j \<and> j < k \<longrightarrow> existsCheck (base @ ''-'' @ show_nat j))
      \<longrightarrow> makeSlugUnique base existsCheck random3 = base @ ''-'' @ show_nat k)
   \<and> (existsCheck base \<and> (\<forall>j. 2 \<le> j \<and> j < 1000 \<longrightarrow> existsCheck (base @ ''-'' @ show_nat j))
      \<longrightarrow> makeSlugUnique base existsCheck random3 = base @ ''-'' @ hex_of_bytes random3)
   \<and> (length random3 = 3
      \<longrightarrow> length (hex_of_bytes random3) = 6 \<and> set (hex_of_bytes random3) \<subseteq> set hex_chars)"
proof (intro conjI impI)
  show "generateSlug name = slug_ref name" by (rule generateSlug_slug_ref)
  show "generateSlug ''  Travis County!!! '' = ''travis-county''" by code_simp
next
  assume "\<not> existsCheck base"
  then show "makeSlugUnique base existsCheck random3 = base"
    by (simp add: makeSlugUnique_def)
next
  assume h: "existsCheck base \<and> 2 \<le> k \<and> k < 1000 \<and> \<not> existsCheck (base @ ''-'' @ show_nat k)
        \<and> (\<forall>j. 2 \<le> j \<and> j < k \<longrightarrow> existsCheck (base @ ''-'' @ show_nat j))"
  then have "slug_loop existsCheck base 2 = Some (base @ ''-'' @ show_nat k)"
    by (intro slug_loop_first) auto
  with h show "makeSlugUnique base existsCheck random3 = base @ ''-'' @ show_nat k"
    by (simp add: makeSlugUnique_def)
next
  assume h: "existsCheck base \<and> (\<forall>j. 2 \<le> j \<and> j < 1000 \<longrightarrow> existsCheck (base @ ''-'' @ show_nat j))"
  then have "slug_loop existsCheck base 2 = None"
    by (intro slug_loop_none) auto
  with h show "makeSlugUnique base existsCheck random3 = base @ ''-'' @ hex_of_bytes random3"
    by (simp add: makeSlugUnique_def)
next
  assume "length random3 = 3"
  then show "length (hex_of_bytes random3) = 6" by (simp add: hex_of_bytes_length)
next
  show "set (hex_of_bytes random3) \<subseteq> set hex_chars" by (rule hex_of_bytes_chars)
qed

theorem generateSlug_makeSlugUnique_witness:
  "makeSlugUnique ''travis-county'' (\<lambda>s. False) [0xAB, 0x01, 0xFF] = ''travis-county''
   \<and> makeSlugUnique ''travis-county'' (\<lambda>s. s \<in> set [''travis-county'', ''travis-county-2''])
       [0xAB, 0x01, 0xFF] = ''travis-county-3''
   \<and> makeSlugUnique ''travis-county'' (\<lambda>s. True) [0xAB, 0x01, 0xFF] = ''travis-county-ab01ff''
   \<and> length (hex_of_bytes [0xAB, 0x01, 0xFF]) = 6
   \<and> slug_ref ''  Travis County!!! '' = ''travis-county''"
proof -
  have s2: "show_nat 2 = ''2''" and s3: "show_nat 3 = ''3''" by code_simp+
  have j: "\<forall>j. 2 \<le> j \<and> j < 3 \<longrightarrow> show_nat j = ''2''"
  proof (intro allI impI)
    fix j :: nat
    assume "2 \<le> j \<and> j < 3"
    then have "j = 2" by arith
    then show "show_nat j = ''2''" by (simp only: s2)
  qed
  have a: "makeSlugUnique ''travis-county'' (\<lambda>s. False) [0xAB, 0x01, 0xFF] = ''travis-county''"
    using generateSlug_makeSlugUnique [of _ "\<lambda>s. False" "''travis-county''"] by simp
  have b: "makeSlugUnique ''travis-county'' (\<lambda>s. s \<in> set [''travis-county'', ''travis-county-2''])
       [0xAB, 0x01, 0xFF] = ''travis-county-3''"
    using generateSlug_makeSlugUnique [of "[]" "\<lambda>s. s \<in> set [''travis-county'', ''travis-county-2'']"
        "''travis-county''" "[0xAB, 0x01, 0xFF]" 3] j
    by (simp add: s2 s3 del: show_nat.simps)
  have c: "makeSlugUnique ''travis-county'' (\<lambda>s. True) [0xAB, 0x01, 0xFF] = ''travis-county-ab01ff''"
    using generateSlug_makeSlugUnique [of "[]" "\<lambda>s. True" "''travis-county''" "[0xAB, 0x01, 0xFF]" 2]
    by (simp add: hex_of_bytes_def hex_chars_def del: show_nat.simps)
  have d: "length (hex_of_bytes [0xAB, 0x01, 0xFF]) = 6"
    using generateSlug_makeSlugUnique [of "[]" "\<lambda>s. True" "''x''" "[0xAB, 0x01, 0xFF]" 2]
    by (simp del: show_nat.simps)
  have e: "slug_ref ''  Travis County!!! '' = ''travis-county''"
  proof -
    from generateSlug_makeSlugUnique [of "''  Travis County!!! ''" "\<lambda>s. True" "''x''" "[]" 2]
    have 1: "generateSlug ''  Travis County!!! '' = slug_ref ''  Travis County!!! ''"
      and 2: "generateSlug ''  Travis County!!! '' = ''travis-county''"
      by blast+
    have "slug_ref ''  Travis County!!! '' = generateSlug ''  Travis County!!! ''"
      by (rule 1 [symmetric])
    also have "\<dots> = ''travis-county''" by (rule 2)
    finally show ?thesis .
  qed
  show ?thesis using a b c d e by simp
qed

subsection \<open>Files and lookups\<close>

lemma find_Some_D: "find records i = Some e \<Longrightarrow> e \<in> set records \<and> ent_id e = i"
  by (auto simp: find_def findById_def find_Some_iff in_set_conv_nth)

lemma and_then_Inr: "and_then r f = Inr y \<longleftrightarrow> (\<exists>x. r = Inr x \<and> f x = Inr y)"
  by (cases r) (simp_all add: and_then_def)

subsection \<open>Atomicity of create and update\<close>

lemma updateRecord_None: "updateRecord records i allowed stamp = (None, records') \<Longrightarrow> records' = records"
  by (auto simp: updateRecord_def Let_def split: list.splits)

text \<open>
  C5. When \<open>create\<close> or \<open>update\<close> raises, the file afterwards is the file before:
  every validation precedes the one call that writes. The same holds when \<open>update\<close>
  returns \<open>null\<close>, and a \<open>create\<close> that succeeds appends exactly the entity it
  returns.
\<close>

theorem create_update_atomic:
  "(create gov now new_id records type data = (Inl err, records') \<longrightarrow> records' = records)
   \<and> (update gov now stamp records i updates = (Inl err, records') \<longrightarrow> records' = records)
   \<and> (update gov now stamp records i updates = (Inr None, records') \<longrightarrow> records' = records)
   \<and> (create gov now new_id records type data = (Inr e, records') \<longrightarrow> records' = records @ [e])"
proof (intro conjI impI)
  assume "create gov now new_id records type data = (Inl err, records')"
  then show "records' = records"
    unfolding create_def by (simp split: sum.splits)
next
  assume "update gov now stamp records i updates = (Inl err, records')"
  then show "records' = records"
    unfolding update_def by (simp split: option.splits sum.splits prod.splits)
next
  assume "update gov now stamp records i updates = (Inr None, records')"
  then show "records' = records"
    unfolding update_def
    by (auto split: option.splits sum.splits prod.splits dest: updateRecord_None)
next
  assume "create gov now new_id records type data = (Inr e, records')"
  then show "records' = records @ [e]"
    unfolding create_def by (simp add: appendRecord_def split: sum.splits)
qed

theorem create_update_atomic_witness:
  "create no_gov ''2026-01-03T09:00:00.000Z'' ''ga-e005'' file_abc ''action'' (titled [])
     = (Inl (Error ValidationError ''Entity title is required''), file_abc)
   \<and> update no_gov ''2026-01-03T09:00:00.000Z'' ''2026-01-03T09:00:00.001Z'' file_abc ''ga-a001''
        ((titled ''Fill both potholes'') \<lparr> in_status := Some ''done'' \<rparr>)
     = (Inl (Error ValidationError
          ''Invalid status for action. Must be one of: open, in_progress, blocked, completed, cancelled''),
        file_abc)
   \<and> update no_gov ''2026-01-03T09:00:00.000Z'' ''2026-01-03T09:00:00.001Z'' file_abc ''ga-zzzz''
        (titled ''Fill both potholes'') = (Inr None, file_abc)
   \<and> (case create no_gov ''2026-01-03T09:00:00.000Z'' ''ga-e005'' file_abc ''action''
              (titled ''Paint the lines'') of
        (Inr e, records') \<Rightarrow> records' = file_abc @ [e]
      | (Inl err, records') \<Rightarrow> False)"
proof -
  let ?c = "create no_gov ''2026-01-03T09:00:00.000Z'' ''ga-e005'' file_abc ''action''
              (titled ''Paint the lines'')"
  obtain e where e: "?c = (Inr e, snd ?c)"
  proof -
    have "(case fst ?c of Inr e \<Rightarrow> True | Inl err \<Rightarrow> False)" by code_simp
    then show ?thesis using that by (cases ?c) (auto split: sum.splits)
  qed
  from create_update_atomic [where gov = no_gov and now = "''2026-01-03T09:00:00.000Z''"
        and new_id = "''ga-e005''" and records = file_abc and type = "''action''"
        and data = "titled ''Paint the lines''" and e = e and records' = "snd ?c"]
  have "?c = (Inr e, snd ?c) \<longrightarrow> snd ?c = file_abc @ [e]" by blast
  with e have "snd ?c = file_abc @ [e]" by blast
  with e have s: "(case ?c of
        (Inr e, records') \<Rightarrow> records' = file_abc @ [e]
      | (Inl err, records') \<Rightarrow> False)"
    by (cases ?c) auto
  have c: "fst (create no_gov ''2026-01-03T09:00:00.000Z'' ''ga-e005'' file_abc ''action'' (titled []))
     = Inl (Error ValidationError ''Entity title is required'')"
    by code_simp
  have u: "fst (update no_gov ''2026-01-03T09:00:00.000Z'' ''2026-01-03T09:00:00.001Z'' file_abc ''ga-a001''
        ((titled ''Fill both potholes'') \<lparr> in_status := Some ''done'' \<rparr>))
     = Inl (Error ValidationError
          ''Invalid status for action. Must be one of: open, in_progress, blocked, completed, cancelled'')"
    by code_simp
  have n: "fst (update no_gov ''2026-01-03T09:00:00.000Z'' ''2026-01-03T09:00:00.001Z'' file_abc ''ga-zzzz''
        (titled ''Fill both potholes'')) = Inr None"
    by code_simp
  have "create no_gov ''2026-01-03T09:00:00.000Z'' ''ga-e005'' file_abc ''action'' (titled [])
     = (Inl (Error ValidationError ''Entity title is required''), file_abc)
   \<and> update no_gov ''2026-01-03T09:00:00.000Z'' ''2026-01-03T09:00:00.001Z'' file_abc ''ga-a001''
        ((titled ''Fill both potholes'') \<lparr> in_status := Some ''done'' \<rparr>)
     = (Inl (Error ValidationError
          ''Invalid status for action. Must be one of: open, in_progress, blocked, completed, cancelled''),
        file_abc)
   \<and> update no_gov ''2026-01-03T09:00:00.000Z'' ''2026-01-03T09:00:00.001Z'' file_abc ''ga-zzzz''
        (titled ''Fill both potholes'') = (Inr None, file_abc)"
    using c u n
      create_update_atomic [where gov = no_gov and now = "''2026-01-03T09:00:00.000Z''"
        and new_id = "''ga-e005''" and records = file_abc and type = "''action''"
        and data = "titled []" and err = "Error ValidationError ''Entity title is required''"
        and records' = "snd (create no_gov ''2026-01-03T09:00:00.000Z'' ''ga-e005'' file_abc
                               ''action'' (titled []))"]
      create_update_atomic [where gov = no_gov and now = "''2026-01-03T09:00:00.000Z''"
        and stamp = "''2026-01-03T09:00:00.001Z''" and records = file_abc and i = "''ga-a001''"
        and updates = "(titled ''Fill both potholes'') \<lparr> in_status := Some ''done'' \<rparr>"
        and err = "Error ValidationError
          ''Invalid status for action. Must be one of: open, in_progress, blocked, completed, cancelled''"
        and records' = "snd (update no_gov ''2026-01-03T09:00:00.000Z''
                               ''2026-01-03T09:00:00.001Z'' file_abc ''ga-a001''
                               ((titled ''Fill both potholes'') \<lparr> in_status := Some ''done'' \<rparr>))"]
      create_update_atomic [where gov = no_gov and now = "''2026-01-03T09:00:00.000Z''"
        and stamp = "''2026-01-03T09:00:00.001Z''" and records = file_abc and i = "''ga-zzzz''"
        and updates = "titled ''Fill both potholes''"
        and records' = "snd (update no_gov ''2026-01-03T09:00:00.000Z''
                               ''2026-01-03T09:00:00.001Z'' file_abc ''ga-zzzz''
                               (titled ''Fill both potholes''))"]
    by (metis prod.collapse)
  with s show ?thesis by blast
qed

subsection \<open>Blocked status\<close>


lemma isBlocked_blockers:
  "blockers (isBlocked records i) =
     (case find records i of
        None \<Rightarrow> []
      | Some e \<Rightarrow>
          concat (map (\<lambda>rel. case find records (target rel) of
                               None \<Rightarrow> []
                             | Some d \<Rightarrow>
                                 if rel_type rel = ''depends_on''
                                    \<and> status d \<notin> {''completed'', ''resolved'', ''accepted'',
                                                    ''cancelled'', ''deprecated'', ''rejected''}
                                 then [\<lparr> b_id = target rel, b_title = title d, b_status = status d \<rparr>]
                                 else [])
                      (relations e)))"
proof (cases "find records i")
  case None
  then show ?thesis by (simp add: isBlocked_def findDependencies_def)
next
  case (Some e)
  have "map (\<lambda>b. \<lparr> b_id = ent_id b, b_title = title b, b_status = status b \<rparr>)
          (filter (\<lambda>dep. status dep \<notin> set blocked_terminal)
             (List.map_filter (\<lambda>rel. find records (target rel))
                (filter (\<lambda>rel. rel_type rel = ''depends_on'') rels)))
        = concat (map (\<lambda>rel. case find records (target rel) of
                               None \<Rightarrow> []
                             | Some d \<Rightarrow>
                                 if rel_type rel = ''depends_on''
                                    \<and> status d \<notin> {''completed'', ''resolved'', ''accepted'',
                                                    ''cancelled'', ''deprecated'', ''rejected''}
                                 then [\<lparr> b_id = target rel, b_title = title d, b_status = status d \<rparr>]
                                 else [])
                      rels)" for rels
  proof (induction rels)
    case Nil
    then show ?case by (simp add: map_filter_simps)
  next
    case (Cons r rs)
    show ?case
    proof (cases "find records (target r)")
      case None
      with Cons show ?thesis by (simp add: map_filter_simps)
    next
      case (Some d)
      then have "ent_id d = target r" by (simp add: find_Some_D)
      with Cons Some show ?thesis
        by (simp add: map_filter_simps blocked_terminal_def)
    qed
  qed
  then show ?thesis using Some by (simp add: isBlocked_def findDependencies_def Let_def)
qed

text \<open>
  C2. \<open>isBlocked\<close> reports \<open>blocked\<close> exactly when some \<open>depends_on\<close> relation of the
  entity has a target in the file whose status is outside completed, resolved, accepted,
  cancelled, deprecated, rejected; and \<open>blockers\<close> lists exactly those targets, one entry
  for each such relation in the order of the relations, with the id, title and status of
  the target. A target that is not in the file has no status and is not listed; an id
  that is not in the file is not blocked.
\<close>

theorem isBlocked_unresolved:
  "(blocked (isBlocked records i) \<longleftrightarrow>
      (\<exists>e rel d. find records i = Some e \<and> rel \<in> set (relations e)
         \<and> rel_type rel = ''depends_on'' \<and> find records (target rel) = Some d
         \<and> status d \<notin> {''completed'', ''resolved'', ''accepted'',
                         ''cancelled'', ''deprecated'', ''rejected''}))
   \<and> blockers (isBlocked records i) =
       (case find records i of
          None \<Rightarrow> []
        | Some e \<Rightarrow>
            concat (map (\<lambda>rel. case find records (target rel) of
                                 None \<Rightarrow> []
                               | Some d \<Rightarrow>
                                   if rel_type rel = ''depends_on''
                                      \<and> status d \<notin> {''completed'', ''resolved'', ''accepted'',
                                                      ''cancelled'', ''deprecated'', ''rejected''}
                                   then [\<lparr> b_id = target rel, b_title = title d,
                                           b_status = status d \<rparr>]
                                   else [])
                        (relations e)))"
proof (intro conjI)
  have "blocked (isBlocked records i) \<longleftrightarrow> blockers (isBlocked records i) \<noteq> []"
    by (simp add: isBlocked_def Let_def)
  also have "\<dots> \<longleftrightarrow>
      (\<exists>e rel d. find records i = Some e \<and> rel \<in> set (relations e)
         \<and> rel_type rel = ''depends_on'' \<and> find records (target rel) = Some d
         \<and> status d \<notin> {''completed'', ''resolved'', ''accepted'',
                         ''cancelled'', ''deprecated'', ''rejected''})"
    unfolding isBlocked_blockers
    by (cases "find records i") (auto split: option.splits if_splits)
  finally show "blocked (isBlocked records i) \<longleftrightarrow>
      (\<exists>e rel d. find records i = Some e \<and> rel \<in> set (relations e)
         \<and> rel_type rel = ''depends_on'' \<and> find records (target rel) = Some d
         \<and> status d \<notin> {''completed'', ''resolved'', ''accepted'',
                         ''cancelled'', ''deprecated'', ''rejected''})" .
qed (rule isBlocked_blockers)

theorem isBlocked_unresolved_witness:
  "blocked (isBlocked file_dep ''ga-a001'')
   \<and> blockers (isBlocked file_dep ''ga-a001'')
       = [\<lparr> b_id = ''ga-b002'', b_title = ''Order asphalt'', b_status = ''open'' \<rparr>]
   \<and> \<not> blocked (isBlocked file_dangling ''ga-a001'')
   \<and> blockers (isBlocked file_dangling ''ga-a001'') = []"
proof -
  have "blockers (isBlocked file_dep ''ga-a001'')
       = [\<lparr> b_id = ''ga-b002'', b_title = ''Order asphalt'', b_status = ''open'' \<rparr>]"
       "blockers (isBlocked file_dangling ''ga-a001'') = []"
       "blocked (isBlocked file_dep ''ga-a001'')"
       "\<not> blocked (isBlocked file_dangling ''ga-a001'')"
    by code_simp+
  then show ?thesis
    using isBlocked_unresolved [of file_dep "''ga-a001''"]
          isBlocked_unresolved [of file_dangling "''ga-a001''"]
    by simp
qed

subsection \<open>What update writes\<close>



lemma update_title_Inr:
  "update_title entity now updates st = Inr st' \<Longrightarrow>
     st' = (case in_title updates of
              None \<Rightarrow> st
            | Some t \<Rightarrow> ((fst st) \<lparr> set_title := Some (trim t) \<rparr>,
                         snd st @ [changed now ''title_changed'' ''title''
                                     (JStr (title entity)) (JStr (trim t))]))"
  unfolding update_title_def
  by (cases "in_title updates") (auto simp: and_then_Inr)

lemma update_body_Inr:
  "update_body updates st = Inr st' \<Longrightarrow>
     snd st' = snd st \<and> tracked (fst st') = tracked (fst st)
     \<and> set_history (fst st') = set_history (fst st)"
  unfolding update_body_def
  by (cases "in_body updates = Absent") (auto simp: and_then_Inr tracked_def)

lemma update_status_Inr:
  assumes "update_status entity now updates st = Inr st'"
  shows "snd st' = snd st @ (case in_status updates of
                           None \<Rightarrow> []
                         | Some s \<Rightarrow> [changed now ''status_changed'' ''status''
                                        (JStr (status entity)) (JStr s)])
     \<and> tracked (fst st') = tracked ((fst st) \<lparr> set_status :=
           (case in_status updates of None \<Rightarrow> set_status (fst st) | Some s \<Rightarrow> Some s) \<rparr>)
     \<and> set_history (fst st') = set_history (fst st)"
proof (cases "in_status updates")
  case None
  then show ?thesis using assms by (simp add: update_status_def tracked_def)
next
  case (Some s)
  from assms
  have "st' = ((fst st) \<lparr> set_status := Some s, set_closed_at := Some (Some now) \<rparr>,
                      snd st @ [changed now ''status_changed'' ''status''
                                        (JStr (status entity)) (JStr s)])
             \<or> st' = ((fst st) \<lparr> set_status := Some s, set_closed_at := Some None \<rparr>,
                      snd st @ [changed now ''status_changed'' ''status''
                                        (JStr (status entity)) (JStr s)])
             \<or> st' = ((fst st) \<lparr> set_status := Some s \<rparr>,
                      snd st @ [changed now ''status_changed'' ''status''
                                        (JStr (status entity)) (JStr s)])"
    unfolding update_status_def Some option.case and_then_Inr Let_def
    by (auto split: if_splits)
  then show ?thesis using Some by (auto simp: tracked_def)
qed

lemma update_priority_Inr:
  assumes "update_priority entity now updates st = Inr st'"
  shows "case in_priority updates of
        None \<Rightarrow> st' = st
      | Some p \<Rightarrow> (\<exists>prio. validatePriority p = Inr prio
                     \<and> st' = ((fst st) \<lparr> set_priority := Some prio \<rparr>,
                              snd st @ [changed now ''priority_changed'' ''priority''
                                          (JNum (priority entity)) (JNum prio)]))"
  using assms unfolding update_priority_def
  by (cases "in_priority updates") (auto simp: and_then_Inr)

lemma update_gov_Inr:
  assumes "update_gov gov entity now updates st = Inr st'"
  shows "if in_gov_id updates = Absent then st' = st
      else (\<exists>govId. resolve_gov gov (in_gov_id updates) = Inr govId
              \<and> st' = ((fst st) \<lparr> set_gov_id := Some govId \<rparr>,
                       snd st @ [changed now (if govId \<noteq> None then ''assigned'' else ''unassigned'')
                                   ''gov_id'' (jv_of_opt (gov_id entity)) (jv_of_opt govId)]))"
  using assms unfolding update_gov_def
  by (cases "in_gov_id updates = Absent") (auto simp: and_then_Inr)

lemma update_relations_Inr:
  assumes "update_relations records entity now updates st = Inr st'"
  shows "if in_relations updates = Absent then st' = st
      else (\<exists>rels. (case in_relations updates of
                       Val rs \<Rightarrow> validateRelations records rs (ent_type entity)
                     | _ \<Rightarrow> Inr []) = Inr rels
              \<and> st' = ((fst st) \<lparr> set_relations := Some rels \<rparr>,
                       snd st @ [changed now ''relations_changed'' ''relations''
                                   (JRels (relations entity)) (JRels rels)]))"
  using assms unfolding update_relations_def
  by (cases "in_relations updates = Absent") (auto simp: and_then_Inr)

lemma update_location_Inr:
  assumes "update_location entity updates st = Inr st'"
  shows "snd st' = snd st \<and> tracked (fst st') = tracked (fst st)
     \<and> set_history (fst st') = set_history (fst st)"
  using assms unfolding update_location_def
  by (cases "ent_type entity = ''problem'' \<and> in_location updates \<noteq> Absent")
     (auto simp: and_then_Inr tracked_def)

lemma tail_tracked:
  "tracked (update_metadata entity updates (update_idea entity updates
              (update_action entity updates a))) = tracked a
   \<and> set_history (update_metadata entity updates (update_idea entity updates
              (update_action entity updates a))) = set_history a"
  by (simp add: update_metadata_def update_idea_def update_action_def tracked_def
           split: js_field.splits)

lemma allowed_updates_written:
  assumes "allowed_updates gov now records entity updates = Inr allowed"
  obtains ti si pv gv rv where
    "tracked allowed = (ti, si, pv, gv, rv)"
    "(ti = None) = (in_title updates = None)"
    "(si = None) = (in_status updates = None)"
    "(pv = None) = (in_priority updates = None)"
    "(gv = None) = (in_gov_id updates = Absent)"
    "(rv = None) = (in_relations updates = Absent)"
    "in_relations updates \<noteq> Absent \<longrightarrow>
       (case in_relations updates of
          Val rs \<Rightarrow> validateRelations records rs (ent_type entity)
        | _ \<Rightarrow> Inr []) = Inr (keep rv [])"
    "keep (set_history allowed) (history entity) = history entity @
       (case ti of None \<Rightarrow> []
        | Some t \<Rightarrow> [changed now ''title_changed'' ''title'' (JStr (title entity)) (JStr t)])
       @ (case si of None \<Rightarrow> []
        | Some s \<Rightarrow> [changed now ''status_changed'' ''status'' (JStr (status entity)) (JStr s)])
       @ (case pv of None \<Rightarrow> []
        | Some p \<Rightarrow> [changed now ''priority_changed'' ''priority''
                       (JNum (priority entity)) (JNum p)])
       @ (case gv of None \<Rightarrow> []
        | Some g \<Rightarrow> [changed now (if g \<noteq> None then ''assigned'' else ''unassigned'') ''gov_id''
                       (jv_of_opt (gov_id entity)) (jv_of_opt g)])
       @ (case rv of None \<Rightarrow> []
        | Some r \<Rightarrow> [changed now ''relations_changed'' ''relations''
                       (JRels (relations entity)) (JRels r)])"
proof -
  from assms obtain st1 st2 st3 st4 st5 st6 st7 where
    s1: "update_title entity now updates (no_patch, []) = Inr st1" and
    s2: "update_body updates st1 = Inr st2" and
    s3: "update_status entity now updates st2 = Inr st3" and
    s4: "update_priority entity now updates st3 = Inr st4" and
    s5: "update_gov gov entity now updates st4 = Inr st5" and
    s6: "update_relations records entity now updates st5 = Inr st6" and
    s7: "update_location entity updates st6 = Inr st7" and
    a: "allowed = add_history entity
              (update_metadata entity updates
                 (update_idea entity updates (update_action entity updates (fst st7))),
               snd st7)"
    unfolding allowed_updates_def and_then_Inr by blast
  define ti where "ti = map_option trim (in_title updates)"
  define si where "si = in_status updates"
  define Ht where "Ht = (case ti of None \<Rightarrow> []
        | Some t \<Rightarrow> [changed now ''title_changed'' ''title'' (JStr (title entity)) (JStr t)])"
  define Hs where "Hs = (case si of None \<Rightarrow> []
        | Some s \<Rightarrow> [changed now ''status_changed'' ''status'' (JStr (status entity)) (JStr s)])"
  have t1: "tracked (fst st1) = (ti, None, None, None, None)"
       "set_history (fst st1) = None" "snd st1 = Ht"
    using update_title_Inr [OF s1]
    by (cases "in_title updates"; simp add: tracked_def no_patch_def ti_def Ht_def)+
  have t2: "tracked (fst st2) = (ti, None, None, None, None)"
       "set_history (fst st2) = None" "snd st2 = Ht"
    using update_body_Inr [OF s2] t1 by simp_all
  have t3: "tracked (fst st3) = (ti, si, None, None, None)"
       "set_history (fst st3) = None" "snd st3 = Ht @ Hs"
    using update_status_Inr [OF s3] t2
    by (cases "in_status updates"; simp add: tracked_def si_def Hs_def)+
  obtain pv where t4: "tracked (fst st4) = (ti, si, pv, None, None)"
       "set_history (fst st4) = None"
       "snd st4 = Ht @ Hs @ (case pv of None \<Rightarrow> []
        | Some p \<Rightarrow> [changed now ''priority_changed'' ''priority''
                       (JNum (priority entity)) (JNum p)])"
       "(pv = None) = (in_priority updates = None)"
  proof (cases "in_priority updates")
    case None
    then have "st4 = st3" using update_priority_Inr [OF s4] by simp
    then show ?thesis using that [of None] t3 None by simp
  next
    case (Some p)
    then obtain prio where "st4 = ((fst st3) \<lparr> set_priority := Some prio \<rparr>,
                              snd st3 @ [changed now ''priority_changed'' ''priority''
                                          (JNum (priority entity)) (JNum prio)])"
      using update_priority_Inr [OF s4] by auto
    then show ?thesis using that [of "Some prio"] t3 Some by (simp add: tracked_def)
  qed
  define Hp where "Hp = (case pv of None \<Rightarrow> []
        | Some p \<Rightarrow> [changed now ''priority_changed'' ''priority''
                       (JNum (priority entity)) (JNum p)])"
  obtain gv where t5: "tracked (fst st5) = (ti, si, pv, gv, None)"
       "set_history (fst st5) = None"
       "snd st5 = Ht @ Hs @ Hp @ (case gv of None \<Rightarrow> []
        | Some g \<Rightarrow> [changed now (if g \<noteq> None then ''assigned'' else ''unassigned'') ''gov_id''
                       (jv_of_opt (gov_id entity)) (jv_of_opt g)])"
       "(gv = None) = (in_gov_id updates = Absent)"
  proof (cases "in_gov_id updates = Absent")
    case True
    then have "st5 = st4" using update_gov_Inr [OF s5] by simp
    then show ?thesis using that [of None] t4 True by (simp add: Hp_def)
  next
    case False
    then obtain g where "st5 = ((fst st4) \<lparr> set_gov_id := Some g \<rparr>,
                       snd st4 @ [changed now (if g \<noteq> None then ''assigned'' else ''unassigned'')
                                   ''gov_id'' (jv_of_opt (gov_id entity)) (jv_of_opt g)])"
      using update_gov_Inr [OF s5] by auto
    then show ?thesis using that [of "Some g"] t4 False by (simp add: tracked_def Hp_def)
  qed
  define Hg where "Hg = (case gv of None \<Rightarrow> []
        | Some g \<Rightarrow> [changed now (if g \<noteq> None then ''assigned'' else ''unassigned'') ''gov_id''
                       (jv_of_opt (gov_id entity)) (jv_of_opt g)])"
  obtain rv where t6: "tracked (fst st6) = (ti, si, pv, gv, rv)"
       "set_history (fst st6) = None"
       "snd st6 = Ht @ Hs @ Hp @ Hg @ (case rv of None \<Rightarrow> []
        | Some r \<Rightarrow> [changed now ''relations_changed'' ''relations''
                       (JRels (relations entity)) (JRels r)])"
       "(rv = None) = (in_relations updates = Absent)"
       "in_relations updates \<noteq> Absent \<longrightarrow>
         (case in_relations updates of
            Val rs \<Rightarrow> validateRelations records rs (ent_type entity)
          | _ \<Rightarrow> Inr []) = Inr (keep rv [])"
  proof (cases "in_relations updates = Absent")
    case True
    then have "st6 = st5" using update_relations_Inr [OF s6] by simp
    then show ?thesis using that [of None] t5 True by (simp add: Hg_def)
  next
    case False
    then obtain r where r: "(case in_relations updates of
                       Val rs \<Rightarrow> validateRelations records rs (ent_type entity)
                     | _ \<Rightarrow> Inr []) = Inr r"
         "st6 = ((fst st5) \<lparr> set_relations := Some r \<rparr>,
                       snd st5 @ [changed now ''relations_changed'' ''relations''
                                   (JRels (relations entity)) (JRels r)])"
      using update_relations_Inr [OF s6] by auto
    then show ?thesis using that [of "Some r"] t5 False
      by (simp add: tracked_def Hg_def keep_def)
  qed
  define Hr where "Hr = (case rv of None \<Rightarrow> []
        | Some r \<Rightarrow> [changed now ''relations_changed'' ''relations''
                       (JRels (relations entity)) (JRels r)])"
  have t7: "tracked (fst st7) = (ti, si, pv, gv, rv)"
       "set_history (fst st7) = None" "snd st7 = Ht @ Hs @ Hp @ Hg @ Hr"
    using update_location_Inr [OF s7] t6 by (simp_all add: Hr_def)
  let ?tail = "update_metadata entity updates
                 (update_idea entity updates (update_action entity updates (fst st7)))"
  have tl: "tracked ?tail = (ti, si, pv, gv, rv)" "set_history ?tail = None"
    using tail_tracked [of entity updates "fst st7"] t7 by simp_all
  have ta: "tracked allowed = (ti, si, pv, gv, rv)"
    using tl unfolding a add_history_def by (simp add: tracked_def)
  have ha: "keep (set_history allowed) (history entity)
            = history entity @ Ht @ Hs @ Hp @ Hg @ Hr"
    using tl t7 unfolding a add_history_def by (simp add: keep_def)
  show ?thesis
    using that [of ti si pv gv rv] ta ha t4(4) t5(4) t6(4) t6(5)
    unfolding Ht_def Hs_def Hp_def Hg_def Hr_def
    by (simp add: ti_def si_def)
qed

lemma updateRecord_Some:
  assumes "updateRecord records i allowed stamp = (Some e', records')"
  obtains m where "m \<in> set records" "ent_id m = i" "e' = merge_record m allowed stamp"
    "records' = map (\<lambda>record. if ent_id record = i then merge_record record allowed stamp
                                   else record) records"
proof (cases "filter (\<lambda>record. ent_id record = i) records")
  case Nil
  with assms show ?thesis by (simp add: updateRecord_def)
next
  case (Cons x xs)
  have "last (x # xs) \<in> set (filter (\<lambda>record. ent_id record = i) records)"
    unfolding Cons by (rule last_in_set) simp
  then have "last (x # xs) \<in> set records" "ent_id (last (x # xs)) = i" by auto
  then show ?thesis
    using that [of "last (x # xs)"] assms Cons by (simp add: updateRecord_def Let_def)
qed

lemma update_Some:
  assumes "update gov now stamp records i updates = (Inr (Some e'), records')"
  obtains entity allowed m where
    "find records i = Some entity"
    "allowed_updates gov now records entity updates = Inr allowed"
    "m \<in> set records" "ent_id m = i" "e' = merge_record m allowed stamp"
    "records' = map (\<lambda>record. if ent_id record = i then merge_record record allowed stamp
                                   else record) records"
proof -
  from assms obtain entity where f: "find records i = Some entity"
    by (cases "find records i") (auto simp: update_def)
  from assms f obtain allowed where
    a: "allowed_updates gov now records entity updates = Inr allowed"
    by (cases "allowed_updates gov now records entity updates") (auto simp: update_def)
  from assms f a have "updateRecord records i allowed stamp = (Some e', records')"
    by (cases "updateRecord records i allowed stamp") (simp add: update_def)
  then show ?thesis using that f a by (elim updateRecord_Some) blast
qed

lemma distinct_ids_same:
  "distinct (map ent_id records) \<Longrightarrow> m \<in> set records \<Longrightarrow> e \<in> set records
   \<Longrightarrow> ent_id m = ent_id e \<Longrightarrow> m = e"
  by (meson distinct_map inj_onD)

lemma find_merged:
  "find (map (\<lambda>record. if ent_id record = i then merge_record record a stamp else record)
           records) i
   = map_option (\<lambda>record. merge_record record a stamp) (find records i)"
  unfolding find_def findById_def by (induction records) (auto simp: merge_record_def)

lemma allowed_updates_history:
  assumes "allowed_updates gov now records e updates = Inr allowed"
  shows "keep (set_history allowed) (history e)
         = history e @ history_of_update e now updates (merge_record m allowed stamp)"
proof -
  define e' where "e' = merge_record m allowed stamp"
  from assms obtain ti si pv gv rv where w:
    "tracked allowed = (ti, si, pv, gv, rv)"
    "(ti = None) = (in_title updates = None)"
    "(si = None) = (in_status updates = None)"
    "(pv = None) = (in_priority updates = None)"
    "(gv = None) = (in_gov_id updates = Absent)"
    "(rv = None) = (in_relations updates = Absent)"
    "keep (set_history allowed) (history e) = history e @
       (case ti of None \<Rightarrow> []
        | Some t \<Rightarrow> [changed now ''title_changed'' ''title'' (JStr (title e)) (JStr t)])
       @ (case si of None \<Rightarrow> []
        | Some s \<Rightarrow> [changed now ''status_changed'' ''status'' (JStr (status e)) (JStr s)])
       @ (case pv of None \<Rightarrow> []
        | Some p \<Rightarrow> [changed now ''priority_changed'' ''priority''
                       (JNum (priority e)) (JNum p)])
       @ (case gv of None \<Rightarrow> []
        | Some g \<Rightarrow> [changed now (if g \<noteq> None then ''assigned'' else ''unassigned'') ''gov_id''
                       (jv_of_opt (gov_id e)) (jv_of_opt g)])
       @ (case rv of None \<Rightarrow> []
        | Some r \<Rightarrow> [changed now ''relations_changed'' ''relations''
                       (JRels (relations e)) (JRels r)])"
    by (rule allowed_updates_written)
  have f: "title e' = keep ti (title m)" "status e' = keep si (status m)"
    "priority e' = keep pv (priority m)" "gov_id e' = keep gv (gov_id m)"
    "relations e' = keep rv (relations m)"
    using w(1) unfolding e'_def by (simp_all add: merge_record_def tracked_def)
  have c1: "(case ti of None \<Rightarrow> []
        | Some t \<Rightarrow> [changed now ''title_changed'' ''title'' (JStr (title e)) (JStr t)])
      = (case in_title updates of None \<Rightarrow> []
        | Some _ \<Rightarrow> [changed now ''title_changed'' ''title'' (JStr (title e)) (JStr (title e'))])"
    using w(2) f(1) by (cases ti; cases "in_title updates") (simp_all add: keep_def)
  have c2: "(case si of None \<Rightarrow> []
        | Some s \<Rightarrow> [changed now ''status_changed'' ''status'' (JStr (status e)) (JStr s)])
      = (case in_status updates of None \<Rightarrow> []
        | Some _ \<Rightarrow> [changed now ''status_changed'' ''status'' (JStr (status e)) (JStr (status e'))])"
    using w(3) f(2) by (cases si; cases "in_status updates") (simp_all add: keep_def)
  have c3: "(case pv of None \<Rightarrow> []
        | Some p \<Rightarrow> [changed now ''priority_changed'' ''priority''
                       (JNum (priority e)) (JNum p)])
      = (case in_priority updates of None \<Rightarrow> []
        | Some _ \<Rightarrow> [changed now ''priority_changed'' ''priority''
                       (JNum (priority e)) (JNum (priority e'))])"
    using w(4) f(3) by (cases pv; cases "in_priority updates") (simp_all add: keep_def)
  have c4: "(case gv of None \<Rightarrow> []
        | Some g \<Rightarrow> [changed now (if g \<noteq> None then ''assigned'' else ''unassigned'') ''gov_id''
                       (jv_of_opt (gov_id e)) (jv_of_opt g)])
      = (if in_gov_id updates = Absent then []
        else [changed now (if gov_id e' \<noteq> None then ''assigned'' else ''unassigned'') ''gov_id''
                (jv_of_opt (gov_id e)) (jv_of_opt (gov_id e'))])"
    using w(5) f(4) by (cases gv) (simp_all add: keep_def)
  have c5: "(case rv of None \<Rightarrow> []
        | Some r \<Rightarrow> [changed now ''relations_changed'' ''relations''
                       (JRels (relations e)) (JRels r)])
      = (if in_relations updates = Absent then []
        else [changed now ''relations_changed'' ''relations''
                (JRels (relations e)) (JRels (relations e'))])"
    using w(6) f(5) by (cases rv) (simp_all add: keep_def)
  show ?thesis
    unfolding w(7) c1 c2 c3 c4 c5 history_of_update_def e'_def [symmetric] ..
qed

lemma history_of_update_Nil:
  "(history_of_update e now updates e' = [])
   = (in_title updates = None \<and> in_status updates = None \<and> in_priority updates = None
      \<and> in_gov_id updates = Absent \<and> in_relations updates = Absent)"
  by (simp add: history_of_update_def split: option.splits)

text \<open>
  C4, amended. A call to \<open>update\<close> that succeeds on an existing entity appends to the
  history stored for it exactly one entry for each of title, status, priority, government
  assignment and relations that the call supplies, in this order, and nothing else; each
  entry records the value stored before as \<open>old_value\<close> and the value stored after as
  \<open>new_value\<close>. So an update of the body alone leaves the stored history as it was. The
  entity returned carries the same history whenever one of the five fields is supplied,
  and it is the stored entity whenever the ids of the file are distinct.
\<close>

theorem update_history:
  assumes "update gov now stamp records i updates = (Inr (Some e'), records')"
      and "find records i = Some e"
  shows "(\<exists>s. find records' i = Some s
              \<and> history s = history e @ history_of_update e now updates s)
       \<and> (in_title updates \<noteq> None \<or> in_status updates \<noteq> None \<or> in_priority updates \<noteq> None
            \<or> in_gov_id updates \<noteq> Absent \<or> in_relations updates \<noteq> Absent
          \<longrightarrow> history e' = history e @ history_of_update e now updates e')
       \<and> (distinct (map ent_id records)
          \<longrightarrow> find records' i = Some e'
              \<and> history e' = history e @ history_of_update e now updates e')"
proof -
  from assms(1) obtain entity allowed m where u:
    "find records i = Some entity"
    "allowed_updates gov now records entity updates = Inr allowed"
    "m \<in> set records" "ent_id m = i" "e' = merge_record m allowed stamp"
    "records' = map (\<lambda>record. if ent_id record = i then merge_record record allowed stamp
                                   else record) records"
    by (rule update_Some)
  from u(1) assms(2) have ee: "entity = e" by simp
  note a = u(2) [unfolded ee]
  define s where "s = merge_record e allowed stamp"
  have fs: "find records' i = Some s"
    unfolding u(6) find_merged s_def using assms(2) by simp
  have hs: "history s = history e @ history_of_update e now updates s"
    using allowed_updates_history [OF a, of e stamp] unfolding s_def
    by (simp add: merge_record_def)
  have stored: "\<exists>s. find records' i = Some s
                   \<and> history s = history e @ history_of_update e now updates s"
    using fs hs by blast
  have he: "keep (set_history allowed) (history e)
            = history e @ history_of_update e now updates e'"
    unfolding u(5) by (rule allowed_updates_history [OF a])
  have returned: "history e' = history e @ history_of_update e now updates e'"
    if "in_title updates \<noteq> None \<or> in_status updates \<noteq> None \<or> in_priority updates \<noteq> None
            \<or> in_gov_id updates \<noteq> Absent \<or> in_relations updates \<noteq> Absent"
  proof -
    from that have "history_of_update e now updates e' \<noteq> []"
      unfolding history_of_update_Nil by blast
    with he obtain h where h: "set_history allowed = Some h"
      by (cases "set_history allowed") (simp_all add: keep_def)
    have "history e' = keep (set_history allowed) (history m)"
      unfolding u(5) by (simp add: merge_record_def)
    also have "\<dots> = keep (set_history allowed) (history e)"
      unfolding h by (simp add: keep_def)
    finally show ?thesis unfolding he .
  qed
  have same: "find records' i = Some e'
              \<and> history e' = history e @ history_of_update e now updates e'"
    if d: "distinct (map ent_id records)"
  proof -
    have "m = e"
      using distinct_ids_same [OF d u(3)] find_Some_D [OF assms(2)] u(4) by simp
    then have "e' = s" unfolding u(5) s_def by simp
    then show ?thesis using fs hs by simp
  qed
  show ?thesis using stored returned same by blast
qed

theorem update_history_witness:
  "(case fst (update no_gov ''2026-01-03T09:00:00.000Z'' ''2026-01-03T09:00:00.001Z'' file_abc
            ''ga-a001''
            ((titled '' Fill both potholes '')
               \<lparr> in_status := Some ''in_progress'', in_priority := Some (PStr ''P1'') \<rparr>)) of
      Inr (Some e') \<Rightarrow> Some (history e')
    | _ \<Rightarrow> None)
   = Some [\<lparr> timestamp = ''2026-01-01T09:00:00.000Z'', action = ''created'', field = None,
             old_value = None, new_value = None \<rparr>,
           \<lparr> timestamp = ''2026-01-03T09:00:00.000Z'', action = ''title_changed'',
             field = Some ''title'', old_value = Some (JStr ''Fill the pothole''),
             new_value = Some (JStr ''Fill both potholes'') \<rparr>,
           \<lparr> timestamp = ''2026-01-03T09:00:00.000Z'', action = ''status_changed'',
             field = Some ''status'', old_value = Some (JStr ''open''),
             new_value = Some (JStr ''in_progress'') \<rparr>,
           \<lparr> timestamp = ''2026-01-03T09:00:00.000Z'', action = ''priority_changed'',
             field = Some ''priority'', old_value = Some (JNum 2),
             new_value = Some (JNum 1) \<rparr>]
   \<and> map_option history (find (snd (update no_gov ''2026-01-03T09:00:00.000Z'' ''2026-01-03T09:00:00.001Z'' file_abc
            ''ga-a001''
            ((titled '' Fill both potholes '')
               \<lparr> in_status := Some ''in_progress'', in_priority := Some (PStr ''P1'') \<rparr>))) ''ga-a001'')
   = Some [\<lparr> timestamp = ''2026-01-01T09:00:00.000Z'', action = ''created'', field = None,
             old_value = None, new_value = None \<rparr>,
           \<lparr> timestamp = ''2026-01-03T09:00:00.000Z'', action = ''title_changed'',
             field = Some ''title'', old_value = Some (JStr ''Fill the pothole''),
             new_value = Some (JStr ''Fill both potholes'') \<rparr>,
           \<lparr> timestamp = ''2026-01-03T09:00:00.000Z'', action = ''status_changed'',
             field = Some ''status'', old_value = Some (JStr ''open''),
             new_value = Some (JStr ''in_progress'') \<rparr>,
           \<lparr> timestamp = ''2026-01-03T09:00:00.000Z'', action = ''priority_changed'',
             field = Some ''priority'', old_value = Some (JNum 2),
             new_value = Some (JNum 1) \<rparr>]"
proof -
  define updates where "updates = (titled '' Fill both potholes '')
                  \<lparr> in_status := Some ''in_progress'', in_priority := Some (PStr ''P1'') \<rparr>"
  define r where "r = update no_gov ''2026-01-03T09:00:00.000Z'' ''2026-01-03T09:00:00.001Z''
                        file_abc ''ga-a001'' updates"
  obtain e where e: "find file_abc ''ga-a001'' = Some e"
    "title e = ''Fill the pothole''" "status e = ''open''" "priority e = 2"
    "history e = [\<lparr> timestamp = ''2026-01-01T09:00:00.000Z'', action = ''created'', field = None,
             old_value = None, new_value = None \<rparr>]"
  proof -
    have "map_option (\<lambda>e. (title e, status e, priority e, history e)) (find file_abc ''ga-a001'')
          = Some (''Fill the pothole'', ''open'', 2,
                  [\<lparr> timestamp = ''2026-01-01T09:00:00.000Z'', action = ''created'', field = None,
                     old_value = None, new_value = None \<rparr>])"
      by code_simp
    then show ?thesis using that by auto
  qed
  have d: "distinct (map ent_id file_abc)" by code_simp
  have t: "in_title updates \<noteq> None" by (simp add: updates_def titled_def)
  obtain e' where e': "r = (Inr (Some e'), snd r)"
    "title e' = ''Fill both potholes''" "status e' = ''in_progress''" "priority e' = 1"
  proof -
    have "(case fst r of Inr (Some e') \<Rightarrow> Some (title e', status e', priority e') | _ \<Rightarrow> None)
          = Some (''Fill both potholes'', ''in_progress'', 1)"
      unfolding r_def updates_def by code_simp
    then show ?thesis using that
      by (cases r) (auto split: sum.splits option.splits)
  qed
  from update_history [OF e'(1) [unfolded r_def] e(1)] d t
  have h: "history e' = history e @ history_of_update e ''2026-01-03T09:00:00.000Z'' updates e'"
    and s: "find (snd r) ''ga-a001'' = Some e'"
    unfolding r_def by blast+
  from h have "history e' =
     [\<lparr> timestamp = ''2026-01-01T09:00:00.000Z'', action = ''created'', field = None,
             old_value = None, new_value = None \<rparr>,
           \<lparr> timestamp = ''2026-01-03T09:00:00.000Z'', action = ''title_changed'',
             field = Some ''title'', old_value = Some (JStr ''Fill the pothole''),
             new_value = Some (JStr ''Fill both potholes'') \<rparr>,
           \<lparr> timestamp = ''2026-01-03T09:00:00.000Z'', action = ''status_changed'',
             field = Some ''status'', old_value = Some (JStr ''open''),
             new_value = Some (JStr ''in_progress'') \<rparr>,
           \<lparr> timestamp = ''2026-01-03T09:00:00.000Z'', action = ''priority_changed'',
             field = Some ''priority'', old_value = Some (JNum 2),
             new_value = Some (JNum 1) \<rparr>]"
    by (simp add: e e' history_of_update_def updates_def titled_def no_input_def changed_def)
  moreover have "fst r = Inr (Some e')" using e'(1) by (metis fst_conv)
  ultimately show ?thesis
    using s unfolding r_def updates_def by simp
qed

text \<open>
  C4, as the claim states it, fails for the body: an update of the body changes the body
  and appends no history entry.
\<close>

theorem update_body_counterexample:
  "map_option (\<lambda>e. (body e, history e)) (find file_abc ''ga-a001'')
   = Some (None, [\<lparr> timestamp = ''2026-01-01T09:00:00.000Z'', action = ''created'',
                    field = None, old_value = None, new_value = None \<rparr>])
   \<and> (case fst (update no_gov ''2026-01-03T09:00:00.000Z'' ''2026-01-03T09:00:00.001Z'' file_abc
                  ''ga-a001'' (no_input \<lparr> in_body := Val ''Use cold patch'' \<rparr>)) of
        Inr (Some e') \<Rightarrow> Some (body e', history e')
      | _ \<Rightarrow> None)
     = Some (Some ''Use cold patch'',
             [\<lparr> timestamp = ''2026-01-01T09:00:00.000Z'', action = ''created'',
                field = None, old_value = None, new_value = None \<rparr>])"
  by code_simp

text \<open>
  Why the returned entity needs a supplied field or distinct ids: \<open>updateRecord\<close> returns
  the last record with the id and \<open>find\<close> reads the first. In \<open>file_twice\<close> an update
  of the body alone returns the copy, whose history is empty, while the history stored
  for the id is unchanged.
\<close>

lemma update_returns_last_duplicate:
  "\<not> distinct (map ent_id file_twice)
   \<and> map_option history (find file_twice ''ga-a001'')
       = Some [\<lparr> timestamp = ''2026-01-01T09:00:00.000Z'', action = ''created'',
                  field = None, old_value = None, new_value = None \<rparr>]
   \<and> (case fst (update no_gov ''2026-01-03T09:00:00.000Z'' ''2026-01-03T09:00:00.001Z''
                  file_twice ''ga-a001'' (no_input \<lparr> in_body := Val ''Use cold patch'' \<rparr>)) of
        Inr (Some e') \<Rightarrow> Some (history e')
      | _ \<Rightarrow> None) = Some []
   \<and> map_option history
        (find (snd (update no_gov ''2026-01-03T09:00:00.000Z'' ''2026-01-03T09:00:00.001Z''
                      file_twice ''ga-a001'' (no_input \<lparr> in_body := Val ''Use cold patch'' \<rparr>)))
           ''ga-a001'')
       = Some [\<lparr> timestamp = ''2026-01-01T09:00:00.000Z'', action = ''created'',
                  field = None, old_value = None, new_value = None \<rparr>]"
  by code_simp

subsection \<open>close\<close>

text \<open>
  C3. \<open>close\<close> of an idea without the \<open>rejected\<close> option sets the status
  \<open>accepted\<close>, which \<open>close\<close> names as the terminal status of an idea, and the entity
  returned has \<open>closed_at\<close> still \<open>null\<close>: the list of terminal statuses in \<open>update\<close>
  has no \<open>accepted\<close>. A rejected idea and a completed action do get \<open>closed_at\<close>.
\<close>

theorem close_idea_accepted_not_closed:
  "(case fst (close no_gov ''2026-01-03T09:00:00.000Z'' ''2026-01-03T09:00:00.001Z'' file_idea
                ''gd-d004'' plain_close) of
      Inr (Some e') \<Rightarrow> Some (ent_type e', status e', closed_at e')
    | _ \<Rightarrow> None)
   = Some (''idea'', ''accepted'', None)
   \<and> (case fst (close no_gov ''2026-01-03T09:00:00.000Z'' ''2026-01-03T09:00:00.001Z'' file_idea
                ''gd-d004'' (plain_close \<lparr> rejected := True \<rparr>)) of
      Inr (Some e') \<Rightarrow> Some (ent_type e', status e', closed_at e')
    | _ \<Rightarrow> None)
   = Some (''idea'', ''rejected'', Some ''2026-01-03T09:00:00.000Z'')
   \<and> (case fst (close no_gov ''2026-01-03T09:00:00.000Z'' ''2026-01-03T09:00:00.001Z'' file_abc
                ''ga-a001'' plain_close) of
      Inr (Some e') \<Rightarrow> Some (ent_type e', status e', closed_at e')
    | _ \<Rightarrow> None)
   = Some (''action'', ''completed'', Some ''2026-01-03T09:00:00.000Z'')"
  by code_simp


subsection \<open>Adding a relation\<close>

lemma validateRelation_Inr:
  assumes "validateRelation records rel sourceType = Inr v"
  shows "v = rel" "rel_type rel \<noteq> []" "target rel \<noteq> []"
    "\<exists>tgt. findById records (target rel) = Some tgt
           \<and> map_of RELATION_TYPES (rel_type rel) = Some (sourceType, ent_type tgt)"
  using assms unfolding validateRelation_def
  by (auto split: if_splits option.splits prod.splits)

lemma validateRelation_ok:
  assumes "rel_type rel \<noteq> []" "target rel \<noteq> []" "findById records (target rel) = Some tgt"
    "map_of RELATION_TYPES (rel_type rel) = Some (sourceType, ent_type tgt)"
  shows "validateRelation records rel sourceType = Inr rel"
  using assms unfolding validateRelation_def by simp

lemma validateRelations_Inr:
  "validateRelations records rels sourceType = Inr vs \<Longrightarrow> vs = rels"
proof (induction rels arbitrary: vs)
  case Nil
  then show ?case by simp
next
  case (Cons r rs)
  then show ?case
    by (auto simp: and_then_Inr dest: validateRelation_Inr(1))
qed

lemma validateRelations_ok:
  "(\<forall>r \<in> set rels. validateRelation records r sourceType = Inr r)
   \<Longrightarrow> validateRelations records rels sourceType = Inr rels"
  by (induction rels) (simp_all add: and_then_def)

lemma update_relations_only:
  assumes "find records i = Some e"
    and "validateRelations records rels (ent_type e) = Inr rels"
  shows "\<exists>e' records'.
           update gov now stamp records i (no_input \<lparr> in_relations := Val rels \<rparr>)
             = (Inr (Some e'), records')
           \<and> relations e' = rels
           \<and> map_option relations (find records' i) = Some rels"
proof -
  let ?h = "[changed now ''relations_changed'' ''relations'' (JRels (relations e)) (JRels rels)]"
  let ?a = "no_patch \<lparr> set_relations := Some rels, set_history := Some (history e @ ?h) \<rparr>"
  have a: "allowed_updates gov now records e (no_input \<lparr> in_relations := Val rels \<rparr>) = Inr ?a"
    using assms(2)
    by (simp add: allowed_updates_def and_then_def update_title_def update_body_def
          update_status_def update_priority_def update_gov_def update_relations_def
          update_location_def update_action_def update_idea_def update_metadata_def
          add_history_def no_input_def written_def no_patch_def)
  from assms(1) have ein: "e \<in> set records" "ent_id e = i" by (simp_all add: find_Some_D)
  then have "filter (\<lambda>record. ent_id record = i) records \<noteq> []"
    by (auto simp: filter_empty_conv)
  then obtain x xs where f: "filter (\<lambda>record. ent_id record = i) records = x # xs"
    by (cases "filter (\<lambda>record. ent_id record = i) records") auto
  let ?records' = "map (\<lambda>record. if ent_id record = i then merge_record record ?a stamp
                                   else record) records"
  have u: "update gov now stamp records i (no_input \<lparr> in_relations := Val rels \<rparr>)
           = (Inr (Some (merge_record (last (x # xs)) ?a stamp)), ?records')"
    using assms(1) a f by (simp add: update_def updateRecord_def Let_def)
  have r: "relations (merge_record (last (x # xs)) ?a stamp) = rels"
    by (simp add: merge_record_def keep_def)
  have "find ?records' i = map_option (\<lambda>record. merge_record record ?a stamp) (find records i)"
    unfolding find_def findById_def
    by (induction records) (auto simp: merge_record_def)
  then have "map_option relations (find ?records' i) = Some rels"
    using assms(1) by (simp add: merge_record_def keep_def)
  with u r show ?thesis by blast
qed

lemma validateRelations_Inl:
  "x \<in> set rels \<Longrightarrow> validateRelation records x sourceType = Inl err
   \<Longrightarrow> \<exists>err'. validateRelations records rels sourceType = Inl err'"
proof (induction rels)
  case Nil
  then show ?case by simp
next
  case (Cons r rs)
  show ?case
  proof (cases "validateRelation records r sourceType")
    case (Inl a)
    then show ?thesis by (simp add: and_then_def)
  next
    case (Inr v)
    with Cons.prems have "x \<in> set rs" by auto
    with Cons obtain err' where "validateRelations records rs sourceType = Inl err'" by blast
    with Inr show ?thesis by (simp add: and_then_def)
  qed
qed

lemma update_relations_fails:
  assumes "find records i = Some e"
    and "validateRelations records rels (ent_type e) = Inl err"
  shows "update gov now stamp records i (no_input \<lparr> in_relations := Val rels \<rparr>)
         = (Inl err, records)"
proof -
  have "allowed_updates gov now records e (no_input \<lparr> in_relations := Val rels \<rparr>) = Inl err"
    using assms(2)
    by (simp add: allowed_updates_def and_then_def update_title_def update_body_def
          update_status_def update_priority_def update_gov_def update_relations_def
          no_input_def written_def no_patch_def)
  with assms(1) show ?thesis by (simp add: update_def)
qed

lemma addRelation_Some:
  assumes "find records sourceId = Some e"
    and s: "addRelation gov now stamp records sourceId t g = (Inr (Some e'), records')"
  shows "\<lparr> rel_type = t, target = g \<rparr> \<notin> set (relations e)"
    and "relations e' = relations e @ [\<lparr> rel_type = t, target = g \<rparr>]"
    and "map_option relations (find records' sourceId)
         = Some (relations e @ [\<lparr> rel_type = t, target = g \<rparr>])"
proof -
  let ?rel = "\<lparr> rel_type = t, target = g \<rparr>"
  from s assms(1) obtain rel where v: "validateRelation records ?rel (ent_type e) = Inr rel"
    by (cases "validateRelation records ?rel (ent_type e)") (auto simp: addRelation_def)
  then have rel: "rel = ?rel" by (simp add: validateRelation_Inr(1))
  have nd: "\<not> list_ex (\<lambda>r. rel_type r = t \<and> target r = g) (relations e)"
    using s assms(1) v rel by (auto simp: addRelation_def Let_def split: if_splits)
  then show "?rel \<notin> set (relations e)"
    by (auto simp: list_ex_iff)
  have u: "update gov now stamp records sourceId
             (no_input \<lparr> in_relations := Val (relations e @ [?rel]) \<rparr>) = (Inr (Some e'), records')"
    using s assms(1) v rel nd by (simp add: addRelation_def Let_def)
  from u obtain entity allowed m where w:
    "find records sourceId = Some entity"
    "allowed_updates gov now records entity
       (no_input \<lparr> in_relations := Val (relations e @ [?rel]) \<rparr>) = Inr allowed"
    "m \<in> set records" "ent_id m = sourceId"
    "e' = merge_record m allowed stamp"
    "records' = map (\<lambda>record. if ent_id record = sourceId
                                then merge_record record allowed stamp else record) records"
    by (rule update_Some)
  from w(1) assms(1) have ee: "entity = e" by simp
  from w(2) obtain ti si pv gv rv where a:
    "tracked allowed = (ti, si, pv, gv, rv)"
    "(rv = None) = (in_relations (no_input \<lparr> in_relations := Val (relations e @ [?rel]) \<rparr>) = Absent)"
    "in_relations (no_input \<lparr> in_relations := Val (relations e @ [?rel]) \<rparr>) \<noteq> Absent \<longrightarrow>
       (case in_relations (no_input \<lparr> in_relations := Val (relations e @ [?rel]) \<rparr>) of
          Val rs \<Rightarrow> validateRelations records rs (ent_type entity)
        | _ \<Rightarrow> Inr []) = Inr (keep rv [])"
    by (rule allowed_updates_written)
  from a(2) obtain r where rv: "rv = Some r" by (cases rv) auto
  from a(3) rv have "validateRelations records (relations e @ [?rel]) (ent_type entity) = Inr r"
    by (simp add: keep_def)
  then have r: "r = relations e @ [?rel]" by (rule validateRelations_Inr)
  with a(1) rv w(5) show "relations e' = relations e @ [?rel]"
    by (simp add: tracked_def merge_record_def keep_def)
  have "find records' sourceId = Some (merge_record e allowed stamp)"
    unfolding w(6) find_merged using assms(1) by simp
  with a(1) rv r show "map_option relations (find records' sourceId) = Some (relations e @ [?rel])"
    by (simp add: tracked_def merge_record_def keep_def)
qed

text \<open>
  C8, amended. \<open>addRelation\<close> of an edge that the source already has always fails and
  leaves the file as it was; the failure is the \<open>ConflictError\<close> whenever the edge passes
  the validation of relations, which runs first, and it is the error of the validation
  otherwise. An \<open>addRelation\<close> that succeeds has added an edge that was not there, at the
  end of the relations, of the entity returned and of the entity in the file afterwards,
  so it keeps a list of relations free of repetitions.
\<close>

theorem addRelation_duplicate:
  assumes "find records sourceId = Some e"
  shows "(\<lparr> rel_type = t, target = g \<rparr> \<in> set (relations e)
            \<longrightarrow> (\<exists>err. addRelation gov now stamp records sourceId t g = (Inl err, records)))
       \<and> (\<lparr> rel_type = t, target = g \<rparr> \<in> set (relations e)
            \<and> validateRelation records \<lparr> rel_type = t, target = g \<rparr> (ent_type e)
                = Inr \<lparr> rel_type = t, target = g \<rparr>
            \<longrightarrow> addRelation gov now stamp records sourceId t g
                  = (Inl (Error ConflictError
                            (''Relation already exists: '' @ sourceId @ '' --['' @ t
                               @ '']--> '' @ g)), records))
       \<and> (addRelation gov now stamp records sourceId t g = (Inr (Some e'), records')
            \<longrightarrow> \<lparr> rel_type = t, target = g \<rparr> \<notin> set (relations e)
                \<and> relations e' = relations e @ [\<lparr> rel_type = t, target = g \<rparr>]
                \<and> (distinct (relations e) \<longrightarrow> distinct (relations e')))
       \<and> (validateRelation records \<lparr> rel_type = t, target = g \<rparr> (ent_type e) = Inl err
            \<longrightarrow> addRelation gov now stamp records sourceId t g = (Inl err, records))
       \<and> (addRelation gov now stamp records sourceId t g = (Inr (Some e'), records')
            \<longrightarrow> map_option relations (find records' sourceId)
                  = Some (relations e @ [\<lparr> rel_type = t, target = g \<rparr>]))"
proof (intro conjI impI)
  assume d: "\<lparr> rel_type = t, target = g \<rparr> \<in> set (relations e)"
  show "\<exists>err. addRelation gov now stamp records sourceId t g = (Inl err, records)"
  proof (cases "validateRelation records \<lparr> rel_type = t, target = g \<rparr> (ent_type e)")
    case (Inl err)
    with assms show ?thesis by (simp add: addRelation_def)
  next
    case (Inr rel)
    then have "rel = \<lparr> rel_type = t, target = g \<rparr>" by (simp add: validateRelation_Inr(1))
    with assms Inr d show ?thesis
      by (auto simp: addRelation_def Let_def list_ex_iff)
  qed
next
  assume "\<lparr> rel_type = t, target = g \<rparr> \<in> set (relations e)
            \<and> validateRelation records \<lparr> rel_type = t, target = g \<rparr> (ent_type e)
                = Inr \<lparr> rel_type = t, target = g \<rparr>"
  with assms show "addRelation gov now stamp records sourceId t g
                  = (Inl (Error ConflictError
                            (''Relation already exists: '' @ sourceId @ '' --['' @ t
                               @ '']--> '' @ g)), records)"
    by (auto simp: addRelation_def Let_def list_ex_iff)
next
  assume s: "addRelation gov now stamp records sourceId t g = (Inr (Some e'), records')"
  let ?rel = "\<lparr> rel_type = t, target = g \<rparr>"
  show notin: "?rel \<notin> set (relations e)"
    by (rule addRelation_Some(1) [OF assms s])
  show r': "relations e' = relations e @ [?rel]"
    by (rule addRelation_Some(2) [OF assms s])
  show "distinct (relations e')" if "distinct (relations e)"
    using that notin r' by simp
next
  assume "validateRelation records \<lparr> rel_type = t, target = g \<rparr> (ent_type e) = Inl err"
  with assms show "addRelation gov now stamp records sourceId t g = (Inl err, records)"
    by (simp add: addRelation_def)
next
  assume s: "addRelation gov now stamp records sourceId t g = (Inr (Some e'), records')"
  show "map_option relations (find records' sourceId)
        = Some (relations e @ [\<lparr> rel_type = t, target = g \<rparr>])"
    by (rule addRelation_Some(3) [OF assms s])
qed

subsection \<open>The cycle search decides reachability\<close>

lemma dep_edges_iff:
  "(a, b) \<in> dep_edges records \<longleftrightarrow>
     (\<exists>e rel. find records a = Some e \<and> rel \<in> set (relations e)
        \<and> rel_type rel \<in> set DEPENDENCY_RELATIONS \<and> target rel = b)"
  by (simp add: dep_edges_def)

lemma dep_targets_edge:
  "find records a = Some current \<Longrightarrow> b \<in> set (dep_targets current visited)
   \<Longrightarrow> (a, b) \<in> dep_edges records"
  by (auto simp: dep_targets_def dep_edges_iff)

lemma edge_in_dep_targets:
  "find records a = Some current \<Longrightarrow> (a, b) \<in> dep_edges records
   \<Longrightarrow> b \<in> set visited \<or> b \<in> set (dep_targets current visited)"
  by (auto simp: dep_targets_def dep_edges_iff)

lemma cycle_search_sound:
  "cycle_search records src visited queue
   \<Longrightarrow> \<exists>q \<in> set queue. (q, src) \<in> (dep_edges records)\<^sup>*"
proof (induction records src visited queue rule: cycle_search.induct)
  case (1 records sourceId visited)
  then show ?case by simp
next
  case (2 records sourceId visited currentId queue)
  show ?case
  proof (cases "currentId = sourceId")
    case True
    then show ?thesis by auto
  next
    case ne: False
    show ?thesis
    proof (cases "currentId \<in> set visited")
      case True
      with ne 2 show ?thesis by auto
    next
      case nv: False
      show ?thesis
      proof (cases "find records currentId")
        case None
        with ne nv 2 show ?thesis by auto
      next
        case (Some current)
        with ne nv "2.prems"
        have "cycle_search records sourceId (visited @ [currentId])
                (queue @ dep_targets current (visited @ [currentId]))"
          by simp
        from "2.IH"(3) [OF ne nv Some this]
        obtain q where q: "q \<in> set queue \<union> set (dep_targets current (visited @ [currentId]))"
          "(q, sourceId) \<in> (dep_edges records)\<^sup>*"
          by auto
        show ?thesis
        proof (cases "q \<in> set queue")
          case True
          with q show ?thesis by auto
        next
          case False
          with q have "(currentId, q) \<in> dep_edges records"
            using dep_targets_edge [OF Some] by auto
          then have "(currentId, sourceId) \<in> (dep_edges records)\<^sup>*"
            using q(2) by (rule converse_rtrancl_into_rtrancl)
          then show ?thesis by auto
        qed
      qed
    qed
  qed
qed

lemma cycle_search_complete:
  "\<not> cycle_search records src visited queue \<Longrightarrow> src \<notin> set visited
   \<Longrightarrow> (\<forall>v \<in> set visited. \<forall>w. (v, w) \<in> dep_edges records \<longrightarrow> w \<in> set visited \<union> set queue)
   \<Longrightarrow> \<exists>V. set visited \<union> set queue \<subseteq> V \<and> src \<notin> V
           \<and> (\<forall>v \<in> V. \<forall>w. (v, w) \<in> dep_edges records \<longrightarrow> w \<in> V)"
proof (induction records src visited queue rule: cycle_search.induct)
  case (1 records sourceId visited)
  then show ?case by (intro exI [of _ "set visited"]) auto
next
  case (2 records sourceId visited currentId queue)
  from "2.prems"(1) have ne: "currentId \<noteq> sourceId" by auto
  show ?case
  proof (cases "currentId \<in> set visited")
    case True
    with ne "2.prems" have n: "\<not> cycle_search records sourceId visited queue" by simp
    have "\<forall>v \<in> set visited. \<forall>w. (v, w) \<in> dep_edges records \<longrightarrow> w \<in> set visited \<union> set queue"
      using "2.prems"(3) True by auto
    from "2.IH"(1) [OF ne True n "2.prems"(2) this]
    obtain V where "set visited \<union> set queue \<subseteq> V" "sourceId \<notin> V"
      "\<forall>v \<in> V. \<forall>w. (v, w) \<in> dep_edges records \<longrightarrow> w \<in> V" by blast
    with True show ?thesis by (intro exI [of _ V]) auto
  next
    case nv: False
    have s': "sourceId \<notin> set (visited @ [currentId])" using "2.prems"(2) ne by auto
    show ?thesis
    proof (cases "find records currentId")
      case None
      with ne nv "2.prems"
      have n: "\<not> cycle_search records sourceId (visited @ [currentId]) queue" by simp
      have "(currentId, w) \<notin> dep_edges records" for w
        using None by (simp add: dep_edges_iff)
      then have "\<forall>v \<in> set (visited @ [currentId]). \<forall>w. (v, w) \<in> dep_edges records
                   \<longrightarrow> w \<in> set (visited @ [currentId]) \<union> set queue"
        using "2.prems"(3) by auto
      from "2.IH"(2) [OF ne nv None n s' this]
      obtain V where "set (visited @ [currentId]) \<union> set queue \<subseteq> V" "sourceId \<notin> V"
        "\<forall>v \<in> V. \<forall>w. (v, w) \<in> dep_edges records \<longrightarrow> w \<in> V" by blast
      then show ?thesis by (intro exI [of _ V]) auto
    next
      case (Some current)
      let ?q = "queue @ dep_targets current (visited @ [currentId])"
      from Some ne nv "2.prems"
      have n: "\<not> cycle_search records sourceId (visited @ [currentId]) ?q" by simp
      have "\<forall>v \<in> set (visited @ [currentId]). \<forall>w. (v, w) \<in> dep_edges records
                   \<longrightarrow> w \<in> set (visited @ [currentId]) \<union> set ?q"
      proof (intro ballI allI impI)
        fix v w
        assume v: "v \<in> set (visited @ [currentId])" and e: "(v, w) \<in> dep_edges records"
        show "w \<in> set (visited @ [currentId]) \<union> set ?q"
        proof (cases "v = currentId")
          case True
          with e edge_in_dep_targets [OF Some, of w "visited @ [currentId]"]
          show ?thesis by auto
        next
          case False
          with v have "v \<in> set visited" by auto
          with e "2.prems"(3) have "w \<in> set visited \<union> set (currentId # queue)" by blast
          then show ?thesis by auto
        qed
      qed
      from "2.IH"(3) [OF ne nv Some n s' this]
      obtain V where "set (visited @ [currentId]) \<union> set ?q \<subseteq> V" "sourceId \<notin> V"
        "\<forall>v \<in> V. \<forall>w. (v, w) \<in> dep_edges records \<longrightarrow> w \<in> V" by blast
      then show ?thesis by (intro exI [of _ V]) auto
    qed
  qed
qed

lemma closed_holds_reachable:
  assumes "(a, b) \<in> E\<^sup>*" and "a \<in> V" and "\<forall>v \<in> V. \<forall>w. (v, w) \<in> E \<longrightarrow> w \<in> V"
  shows "b \<in> V"
  using assms by (induction rule: rtrancl_induct) auto

lemma cycle_search_reaches:
  "cycle_search records sourceId [] [targetId] \<longleftrightarrow> reaches records targetId sourceId"
proof
  assume "cycle_search records sourceId [] [targetId]"
  then show "reaches records targetId sourceId"
    using cycle_search_sound [of records sourceId "[]" "[targetId]"] by (simp add: reaches_def)
next
  assume r: "reaches records targetId sourceId"
  show "cycle_search records sourceId [] [targetId]"
  proof (rule ccontr)
    assume "\<not> cycle_search records sourceId [] [targetId]"
    then obtain V where V: "targetId \<in> V" "sourceId \<notin> V"
      "\<forall>v \<in> V. \<forall>w. (v, w) \<in> dep_edges records \<longrightarrow> w \<in> V"
      using cycle_search_complete [of records sourceId "[]" "[targetId]"] by auto
    with r show False
      using closed_holds_reachable [of targetId sourceId "dep_edges records" V]
      by (simp add: reaches_def)
  qed
qed


subsection \<open>link\<close>

lemma relation_type_not_empty: "map_of RELATION_TYPES [] = None"
  by (simp add: RELATION_TYPES_def)

lemma wouldCreateCycle_iff:
  "wouldCreateCycle records sourceId targetId r
   \<longleftrightarrow> r \<in> set DEPENDENCY_RELATIONS \<and> reaches records targetId sourceId"
  unfolding wouldCreateCycle_def cycle_search_reaches by simp

lemma addRelation_dangling:
  assumes "find records sourceId = Some e" "x \<in> set (relations e)"
    and "validateRelation records x (ent_type e) = Inl err"
  shows "\<exists>err'. addRelation gov now stamp records sourceId t g = (Inl err', records)"
proof (cases "validateRelation records \<lparr> rel_type = t, target = g \<rparr> (ent_type e)")
  case (Inl a)
  with assms(1) show ?thesis by (simp add: addRelation_def)
next
  case (Inr rel)
  let ?rel = "\<lparr> rel_type = t, target = g \<rparr>"
  from Inr have rel: "rel = ?rel" by (simp add: validateRelation_Inr(1))
  show ?thesis
  proof (cases "list_ex (\<lambda>r. rel_type r = t \<and> target r = g) (relations e)")
    case True
    with assms(1) Inr rel show ?thesis by (simp add: addRelation_def Let_def)
  next
    case False
    from assms(2,3) obtain err' where
      "validateRelations records (relations e @ [?rel]) (ent_type e) = Inl err'"
      using validateRelations_Inl [of x "relations e @ [?rel]" records "ent_type e" err] by auto
    then have "update gov now stamp records sourceId
                 (no_input \<lparr> in_relations := Val (relations e @ [?rel]) \<rparr>) = (Inl err', records)"
      by (rule update_relations_fails [OF assms(1)])
    with assms(1) Inr rel False show ?thesis by (simp add: addRelation_def Let_def)
  qed
qed

text \<open>
  C1, amended. For distinct ids \<open>S\<close> and \<open>T\<close> and a dependency-forming relation type,
  \<open>link\<close> fails with the \<open>CycleError\<close> when \<open>S\<close> is reachable from \<open>T\<close> along
  dependency-forming edges, and otherwise does what \<open>addRelation\<close> does; for any other
  relation type it does what \<open>addRelation\<close> does, with no cycle check. When no cycle is
  found, \<open>S\<close> and \<open>T\<close> are in the file with the types that the relation declares, the
  edge is not yet on \<open>S\<close>, and every relation already on \<open>S\<close> still passes validation,
  \<open>link\<close> succeeds: the entity returned and the entity in the file afterwards have the
  edge added at the end of their relations. When a relation already on \<open>S\<close> fails
  validation, \<open>link\<close> fails and leaves the file as it was.
\<close>

theorem link_cycle_check:
  assumes "sourceId \<noteq> targetId"
  shows "(r \<in> set DEPENDENCY_RELATIONS \<and> reaches records targetId sourceId
            \<longrightarrow> link gov now stamp records sourceId r targetId
                  = (Inl (Error CycleError
                            (''Adding this relation would create a cycle: '' @ sourceId
                               @ '' -> '' @ targetId)), records))
       \<and> (r \<in> set DEPENDENCY_RELATIONS \<and> \<not> reaches records targetId sourceId
            \<longrightarrow> link gov now stamp records sourceId r targetId
                  = addRelation gov now stamp records sourceId r targetId)
       \<and> (r \<notin> set DEPENDENCY_RELATIONS
            \<longrightarrow> link gov now stamp records sourceId r targetId
                  = addRelation gov now stamp records sourceId r targetId)
       \<and> (\<not> (r \<in> set DEPENDENCY_RELATIONS \<and> reaches records targetId sourceId)
            \<and> find records sourceId = Some e \<and> find records targetId = Some tgt
            \<and> targetId \<noteq> []
            \<and> map_of RELATION_TYPES r = Some (ent_type e, ent_type tgt)
            \<and> \<lparr> rel_type = r, target = targetId \<rparr> \<notin> set (relations e)
            \<and> (\<forall>x \<in> set (relations e). validateRelation records x (ent_type e) = Inr x)
            \<longrightarrow> (\<exists>e' records'.
                    link gov now stamp records sourceId r targetId = (Inr (Some e'), records')
                    \<and> relations e' = relations e @ [\<lparr> rel_type = r, target = targetId \<rparr>]
                    \<and> map_option relations (find records' sourceId)
                        = Some (relations e @ [\<lparr> rel_type = r, target = targetId \<rparr>])))
       \<and> (find records sourceId = Some e
            \<and> (\<exists>x \<in> set (relations e). \<exists>err. validateRelation records x (ent_type e) = Inl err)
            \<longrightarrow> (\<exists>err. link gov now stamp records sourceId r targetId = (Inl err, records)))"
proof (intro conjI impI)
  assume "r \<in> set DEPENDENCY_RELATIONS \<and> reaches records targetId sourceId"
  then show "link gov now stamp records sourceId r targetId
                  = (Inl (Error CycleError
                            (''Adding this relation would create a cycle: '' @ sourceId
                               @ '' -> '' @ targetId)), records)"
    using assms by (simp add: link_def wouldCreateCycle_iff)
next
  assume "r \<in> set DEPENDENCY_RELATIONS \<and> \<not> reaches records targetId sourceId"
  then show "link gov now stamp records sourceId r targetId
                  = addRelation gov now stamp records sourceId r targetId"
    using assms by (simp add: link_def wouldCreateCycle_iff)
next
  assume "r \<notin> set DEPENDENCY_RELATIONS"
  then show "link gov now stamp records sourceId r targetId
                  = addRelation gov now stamp records sourceId r targetId"
    using assms by (simp add: link_def)
next
  let ?rel = "\<lparr> rel_type = r, target = targetId \<rparr>"
  assume h: "\<not> (r \<in> set DEPENDENCY_RELATIONS \<and> reaches records targetId sourceId)
            \<and> find records sourceId = Some e \<and> find records targetId = Some tgt
            \<and> targetId \<noteq> []
            \<and> map_of RELATION_TYPES r = Some (ent_type e, ent_type tgt)
            \<and> ?rel \<notin> set (relations e)
            \<and> (\<forall>x \<in> set (relations e). validateRelation records x (ent_type e) = Inr x)"
  then have l: "link gov now stamp records sourceId r targetId
                = addRelation gov now stamp records sourceId r targetId"
    using assms by (auto simp: link_def wouldCreateCycle_iff)
  from h have "r \<noteq> []" using relation_type_not_empty by auto
  with h have v: "validateRelation records ?rel (ent_type e) = Inr ?rel"
    by (intro validateRelation_ok [where tgt = tgt]) (simp_all add: find_def)
  have nd: "\<not> list_ex (\<lambda>x. rel_type x = r \<and> target x = targetId) (relations e)"
  proof
    assume "list_ex (\<lambda>x. rel_type x = r \<and> target x = targetId) (relations e)"
    then obtain x where x: "x \<in> set (relations e)" "rel_type x = r" "target x = targetId"
      by (auto simp: list_ex_iff)
    have "x = ?rel" using x(2,3) by (cases x) simp
    with x(1) h show False by simp
  qed
  have a: "addRelation gov now stamp records sourceId r targetId
           = update gov now stamp records sourceId
               (no_input \<lparr> in_relations := Val (relations e @ [?rel]) \<rparr>)"
    using h v nd by (simp add: addRelation_def Let_def)
  have "validateRelations records (relations e @ [?rel]) (ent_type e) = Inr (relations e @ [?rel])"
    using h v by (intro validateRelations_ok) auto
  with h show "\<exists>e' records'.
                    link gov now stamp records sourceId r targetId = (Inr (Some e'), records')
                    \<and> relations e' = relations e @ [?rel]
                    \<and> map_option relations (find records' sourceId)
                        = Some (relations e @ [?rel])"
    unfolding l a by (intro update_relations_only) simp_all
next
  assume h: "find records sourceId = Some e
            \<and> (\<exists>x \<in> set (relations e). \<exists>err. validateRelation records x (ent_type e) = Inl err)"
  then obtain err where "addRelation gov now stamp records sourceId r targetId = (Inl err, records)"
    using addRelation_dangling [of records sourceId e] by blast
  then show "\<exists>err. link gov now stamp records sourceId r targetId = (Inl err, records)"
    using assms by (simp add: link_def)
qed

subsection \<open>Concrete cases of link and addRelation\<close>

text \<open>
  C1, as the claim states it, fails on a source that has a dangling relation. In
  \<open>file_dangling\<close> (three actions created, \<open>ga-a001 depends_on ga-b002\<close> linked, then
  \<open>ga-b002\<close> deleted) \<open>ga-a001\<close> is not reachable from \<open>ga-c003\<close>, both are actions in
  the file, and the edge \<open>ga-a001 depends_on ga-c003\<close> passes validation and is not a
  duplicate; yet \<open>link\<close> fails, because \<open>update\<close> validates every relation of the new
  list and the old target is gone.
\<close>

theorem link_dangling_counterexample:
  "\<not> reaches file_dangling ''ga-c003'' ''ga-a001''
   \<and> map_option (\<lambda>e. (ent_type e, relations e)) (find file_dangling ''ga-a001'')
       = Some (''action'', [\<lparr> rel_type = ''depends_on'', target = ''ga-b002'' \<rparr>])
   \<and> map_option ent_type (find file_dangling ''ga-c003'') = Some ''action''
   \<and> map_of RELATION_TYPES ''depends_on'' = Some (''action'', ''action'')
   \<and> validateRelation file_dangling \<lparr> rel_type = ''depends_on'', target = ''ga-c003'' \<rparr> ''action''
       = Inr \<lparr> rel_type = ''depends_on'', target = ''ga-c003'' \<rparr>
   \<and> fst (link no_gov ''2026-01-03T09:00:00.000Z'' ''2026-01-03T09:00:00.001Z'' file_dangling
             ''ga-a001'' ''depends_on'' ''ga-c003'')
       = Inl (Error NotFoundError ''Relation target not found: ga-b002'')"
proof -
  have "\<not> reaches file_dangling ''ga-c003'' ''ga-a001''"
    unfolding cycle_search_reaches [symmetric] by code_simp
  moreover have "map_option (\<lambda>e. (ent_type e, relations e)) (find file_dangling ''ga-a001'')
       = Some (''action'', [\<lparr> rel_type = ''depends_on'', target = ''ga-b002'' \<rparr>])"
    by code_simp
  moreover have "map_option ent_type (find file_dangling ''ga-c003'') = Some ''action''"
    by code_simp
  moreover have "map_of RELATION_TYPES ''depends_on'' = Some (''action'', ''action'')"
    by code_simp
  moreover have "validateRelation file_dangling \<lparr> rel_type = ''depends_on'', target = ''ga-c003'' \<rparr> ''action''
       = Inr \<lparr> rel_type = ''depends_on'', target = ''ga-c003'' \<rparr>"
    by code_simp
  moreover have "fst (link no_gov ''2026-01-03T09:00:00.000Z'' ''2026-01-03T09:00:00.001Z'' file_dangling
             ''ga-a001'' ''depends_on'' ''ga-c003'')
       = Inl (Error NotFoundError ''Relation target not found: ga-b002'')"
    by code_simp
  ultimately show ?thesis by (intro conjI)
qed

text \<open>
  C8, as the claim states it, fails twice. Adding again the edge whose target has been
  deleted fails with the error of the validation, not with the \<open>ConflictError\<close>; and
  \<open>update\<close> (as \<open>create\<close>) accepts a list of relations with a repetition, so two
  identical pairs can coexist on one source.
\<close>

theorem addRelation_duplicate_counterexample:
  "map_option relations (find file_dangling ''ga-a001'')
     = Some [\<lparr> rel_type = ''depends_on'', target = ''ga-b002'' \<rparr>]
   \<and> fst (addRelation no_gov ''2026-01-03T09:00:00.000Z'' ''2026-01-03T09:00:00.001Z''
             file_dangling ''ga-a001'' ''depends_on'' ''ga-b002'')
       = Inl (Error NotFoundError ''Relation target not found: ga-b002'')
   \<and> (case fst (update no_gov ''2026-01-03T09:00:00.000Z'' ''2026-01-03T09:00:00.001Z'' file_abc
                  ''ga-a001''
                  (no_input \<lparr> in_relations :=
                     Val [\<lparr> rel_type = ''depends_on'', target = ''ga-b002'' \<rparr>,
                          \<lparr> rel_type = ''depends_on'', target = ''ga-b002'' \<rparr>] \<rparr>)) of
        Inr (Some e') \<Rightarrow> Some (relations e')
      | _ \<Rightarrow> None)
     = Some [\<lparr> rel_type = ''depends_on'', target = ''ga-b002'' \<rparr>,
             \<lparr> rel_type = ''depends_on'', target = ''ga-b002'' \<rparr>]"
  by code_simp

theorem addRelation_duplicate_witness:
  "addRelation no_gov ''2026-01-03T09:00:00.000Z'' ''2026-01-03T09:00:00.001Z'' file_dep
     ''ga-a001'' ''depends_on'' ''ga-b002''
   = (Inl (Error ConflictError ''Relation already exists: ga-a001 --[depends_on]--> ga-b002''),
      file_dep)
   \<and> (case fst (addRelation no_gov ''2026-01-03T09:00:00.000Z'' ''2026-01-03T09:00:00.001Z''
                  file_dep ''ga-a001'' ''depends_on'' ''ga-c003'') of
        Inr (Some e') \<Rightarrow> Some (relations e')
      | _ \<Rightarrow> None)
     = Some [\<lparr> rel_type = ''depends_on'', target = ''ga-b002'' \<rparr>,
             \<lparr> rel_type = ''depends_on'', target = ''ga-c003'' \<rparr>]
   \<and> map_option relations
        (find (snd (addRelation no_gov ''2026-01-03T09:00:00.000Z'' ''2026-01-03T09:00:00.001Z''
                      file_dep ''ga-a001'' ''depends_on'' ''ga-c003'')) ''ga-a001'')
     = Some [\<lparr> rel_type = ''depends_on'', target = ''ga-b002'' \<rparr>,
             \<lparr> rel_type = ''depends_on'', target = ''ga-c003'' \<rparr>]
   \<and> addRelation no_gov ''2026-01-03T09:00:00.000Z'' ''2026-01-03T09:00:00.001Z'' file_dangling
        ''ga-a001'' ''depends_on'' ''ga-b002''
     = (Inl (Error NotFoundError ''Relation target not found: ga-b002''), file_dangling)"
proof -
  obtain e where e: "find file_dep ''ga-a001'' = Some e" "ent_type e = ''action''"
    "relations e = [\<lparr> rel_type = ''depends_on'', target = ''ga-b002'' \<rparr>]"
  proof -
    have "map_option (\<lambda>e. (ent_type e, relations e)) (find file_dep ''ga-a001'')
          = Some (''action'', [\<lparr> rel_type = ''depends_on'', target = ''ga-b002'' \<rparr>])"
      by code_simp
    then show ?thesis using that by auto
  qed
  have v: "validateRelation file_dep \<lparr> rel_type = ''depends_on'', target = ''ga-b002'' \<rparr> ''action''
           = Inr \<lparr> rel_type = ''depends_on'', target = ''ga-b002'' \<rparr>"
    by code_simp
  let ?r = "addRelation no_gov ''2026-01-03T09:00:00.000Z'' ''2026-01-03T09:00:00.001Z''
                  file_dep ''ga-a001'' ''depends_on'' ''ga-c003''"
  obtain e' where e': "?r = (Inr (Some e'), snd ?r)"
  proof -
    have "(case fst ?r of Inr (Some e') \<Rightarrow> True | _ \<Rightarrow> False)"
      by code_simp
    then show ?thesis using that
      by (cases ?r) (auto split: sum.splits option.splits)
  qed
  have 1: "addRelation no_gov ''2026-01-03T09:00:00.000Z'' ''2026-01-03T09:00:00.001Z'' file_dep
     ''ga-a001'' ''depends_on'' ''ga-b002''
   = (Inl (Error ConflictError ''Relation already exists: ga-a001 --[depends_on]--> ga-b002''),
      file_dep)"
    using addRelation_duplicate [OF e(1), where t = "''depends_on''" and g = "''ga-b002''"
            and gov = no_gov and now = "''2026-01-03T09:00:00.000Z''"
            and stamp = "''2026-01-03T09:00:00.001Z''"] e v
    by simp
  from addRelation_duplicate [OF e(1), where t = "''depends_on''" and g = "''ga-c003''"
            and gov = no_gov and now = "''2026-01-03T09:00:00.000Z''"
            and stamp = "''2026-01-03T09:00:00.001Z''" and e' = e' and records' = "snd ?r"]
  have "?r = (Inr (Some e'), snd ?r)
        \<longrightarrow> relations e' = relations e @ [\<lparr> rel_type = ''depends_on'', target = ''ga-c003'' \<rparr>]
            \<and> map_option relations (find (snd ?r) ''ga-a001'')
                = Some (relations e @ [\<lparr> rel_type = ''depends_on'', target = ''ga-c003'' \<rparr>])"
    by blast
  with e' have s: "relations e' = relations e @ [\<lparr> rel_type = ''depends_on'', target = ''ga-c003'' \<rparr>]"
    "map_option relations (find (snd ?r) ''ga-a001'')
       = Some (relations e @ [\<lparr> rel_type = ''depends_on'', target = ''ga-c003'' \<rparr>])"
    by blast+
  moreover have "fst ?r = Inr (Some e')" using e' by (metis fst_conv)
  ultimately have 2: "(case fst ?r of Inr (Some e') \<Rightarrow> Some (relations e') | _ \<Rightarrow> None)
     = Some [\<lparr> rel_type = ''depends_on'', target = ''ga-b002'' \<rparr>,
             \<lparr> rel_type = ''depends_on'', target = ''ga-c003'' \<rparr>]"
    by (simp add: e)
  have 3: "map_option relations (find (snd ?r) ''ga-a001'')
     = Some [\<lparr> rel_type = ''depends_on'', target = ''ga-b002'' \<rparr>,
             \<lparr> rel_type = ''depends_on'', target = ''ga-c003'' \<rparr>]"
    using s(2) by (simp add: e)
  obtain d where d: "find file_dangling ''ga-a001'' = Some d" "ent_type d = ''action''"
  proof -
    have "map_option ent_type (find file_dangling ''ga-a001'') = Some ''action''"
      by code_simp
    then show ?thesis using that by auto
  qed
  have vd: "validateRelation file_dangling \<lparr> rel_type = ''depends_on'', target = ''ga-b002'' \<rparr>
              ''action''
            = Inl (Error NotFoundError ''Relation target not found: ga-b002'')"
    by code_simp
  have 4: "addRelation no_gov ''2026-01-03T09:00:00.000Z'' ''2026-01-03T09:00:00.001Z''
             file_dangling ''ga-a001'' ''depends_on'' ''ga-b002''
           = (Inl (Error NotFoundError ''Relation target not found: ga-b002''), file_dangling)"
    using addRelation_duplicate [OF d(1), where t = "''depends_on''" and g = "''ga-b002''"
            and gov = no_gov and now = "''2026-01-03T09:00:00.000Z''"
            and stamp = "''2026-01-03T09:00:00.001Z''"
            and err = "Error NotFoundError ''Relation target not found: ga-b002''"] d(2) vd
    by simp
  show ?thesis using 1 2 3 4 by (intro conjI)
qed

theorem link_cycle_check_witness:
  "link no_gov ''2026-01-03T09:00:00.000Z'' ''2026-01-03T09:00:00.001Z'' file_dep
     ''ga-b002'' ''depends_on'' ''ga-a001''
   = (Inl (Error CycleError ''Adding this relation would create a cycle: ga-b002 -> ga-a001''),
      file_dep)
   \<and> (\<exists>e' records'.
        link no_gov ''2026-01-03T09:00:00.000Z'' ''2026-01-03T09:00:00.001Z'' file_dep
          ''ga-b002'' ''depends_on'' ''ga-c003'' = (Inr (Some e'), records')
        \<and> relations e' = [\<lparr> rel_type = ''depends_on'', target = ''ga-c003'' \<rparr>]
        \<and> map_option relations (find records' ''ga-b002'')
            = Some [\<lparr> rel_type = ''depends_on'', target = ''ga-c003'' \<rparr>])
   \<and> link no_gov ''2026-01-03T09:00:00.000Z'' ''2026-01-03T09:00:00.001Z'' file_dep
        ''ga-b002'' ''implements'' ''ga-a001''
     = addRelation no_gov ''2026-01-03T09:00:00.000Z'' ''2026-01-03T09:00:00.001Z'' file_dep
        ''ga-b002'' ''implements'' ''ga-a001''
   \<and> (\<exists>err. link no_gov ''2026-01-03T09:00:00.000Z'' ''2026-01-03T09:00:00.001Z'' file_dangling
               ''ga-a001'' ''depends_on'' ''ga-c003'' = (Inl err, file_dangling))"
proof -
  have r1: "reaches file_dep ''ga-a001'' ''ga-b002''"
    unfolding cycle_search_reaches [symmetric] by code_simp
  have r2: "\<not> reaches file_dep ''ga-c003'' ''ga-b002''"
    unfolding cycle_search_reaches [symmetric] by code_simp
  have d: "''depends_on'' \<in> set DEPENDENCY_RELATIONS" "''implements'' \<notin> set DEPENDENCY_RELATIONS"
    by (simp_all add: DEPENDENCY_RELATIONS_def)
  obtain e where e: "find file_dep ''ga-b002'' = Some e" "ent_type e = ''action''"
    "relations e = []"
  proof -
    have "map_option (\<lambda>e. (ent_type e, relations e)) (find file_dep ''ga-b002'')
          = Some (''action'', [])"
      by code_simp
    then show ?thesis using that by auto
  qed
  obtain tgt where t: "find file_dep ''ga-c003'' = Some tgt" "ent_type tgt = ''action''"
  proof -
    have "map_option ent_type (find file_dep ''ga-c003'') = Some ''action''"
      by code_simp
    then show ?thesis using that by auto
  qed
  have m: "map_of RELATION_TYPES ''depends_on'' = Some (''action'', ''action'')"
    by code_simp
  have 1: "link no_gov ''2026-01-03T09:00:00.000Z'' ''2026-01-03T09:00:00.001Z'' file_dep
     ''ga-b002'' ''depends_on'' ''ga-a001''
   = (Inl (Error CycleError ''Adding this relation would create a cycle: ga-b002 -> ga-a001''),
      file_dep)"
    using link_cycle_check [where sourceId = "''ga-b002''" and targetId = "''ga-a001''"
            and r = "''depends_on''" and records = file_dep and gov = no_gov
            and now = "''2026-01-03T09:00:00.000Z''" and stamp = "''2026-01-03T09:00:00.001Z''"]
          r1 d
    by simp
  have 2: "\<exists>e' records'.
        link no_gov ''2026-01-03T09:00:00.000Z'' ''2026-01-03T09:00:00.001Z'' file_dep
          ''ga-b002'' ''depends_on'' ''ga-c003'' = (Inr (Some e'), records')
        \<and> relations e' = [\<lparr> rel_type = ''depends_on'', target = ''ga-c003'' \<rparr>]
        \<and> map_option relations (find records' ''ga-b002'')
            = Some [\<lparr> rel_type = ''depends_on'', target = ''ga-c003'' \<rparr>]"
    using link_cycle_check [where sourceId = "''ga-b002''" and targetId = "''ga-c003''"
            and r = "''depends_on''" and records = file_dep and gov = no_gov
            and now = "''2026-01-03T09:00:00.000Z''" and stamp = "''2026-01-03T09:00:00.001Z''"
            and e = e and tgt = tgt]
          r2 e t m
    by simp
  have 3: "link no_gov ''2026-01-03T09:00:00.000Z'' ''2026-01-03T09:00:00.001Z'' file_dep
        ''ga-b002'' ''implements'' ''ga-a001''
     = addRelation no_gov ''2026-01-03T09:00:00.000Z'' ''2026-01-03T09:00:00.001Z'' file_dep
        ''ga-b002'' ''implements'' ''ga-a001''"
    using link_cycle_check [where sourceId = "''ga-b002''" and targetId = "''ga-a001''"
            and r = "''implements''" and records = file_dep and gov = no_gov
            and now = "''2026-01-03T09:00:00.000Z''" and stamp = "''2026-01-03T09:00:00.001Z''"]
          d
    by simp
  obtain s where s: "find file_dangling ''ga-a001'' = Some s" "ent_type s = ''action''"
    "relations s = [\<lparr> rel_type = ''depends_on'', target = ''ga-b002'' \<rparr>]"
  proof -
    have "map_option (\<lambda>e. (ent_type e, relations e)) (find file_dangling ''ga-a001'')
          = Some (''action'', [\<lparr> rel_type = ''depends_on'', target = ''ga-b002'' \<rparr>])"
      by code_simp
    then show ?thesis using that by auto
  qed
  have vd: "validateRelation file_dangling \<lparr> rel_type = ''depends_on'', target = ''ga-b002'' \<rparr>
              ''action''
            = Inl (Error NotFoundError ''Relation target not found: ga-b002'')"
    by code_simp
  have 4: "\<exists>err. link no_gov ''2026-01-03T09:00:00.000Z'' ''2026-01-03T09:00:00.001Z''
                   file_dangling ''ga-a001'' ''depends_on'' ''ga-c003'' = (Inl err, file_dangling)"
    using link_cycle_check [where sourceId = "''ga-a001''" and targetId = "''ga-c003''"
            and r = "''depends_on''" and records = file_dangling and gov = no_gov
            and now = "''2026-01-03T09:00:00.000Z''" and stamp = "''2026-01-03T09:00:00.001Z''"
            and e = s]
          s vd
    by simp
  show ?thesis using 1 2 3 4 by (intro conjI)
qed


end
